theory Spec2Isabelle
  imports Complex_Main "HOL-Library.Log_Nat"
begin

section \<open>Quantization-parameter propagation: the state store\<close>

text \<open>
  Shallow embedding of \<^verbatim>\<open>tensorflow/compiler/mlir/lite/quantization/quantization_driver.cc\<close>.
  An \<^verbatim>\<open>Operation*\<close> is the identity of an operation, a natural number. A \<^verbatim>\<open>Value\<close> is
  a result of an operation or a block argument; equality of values is identity.
  \<^verbatim>\<open>OpValue\<close> is the pair of an operation and an operand or result index.
  The type \<open>'p\<close> stands for a non-null \<^verbatim>\<open>quant::QuantizedType\<close>; \<^verbatim>\<open>QuantParams\<close> is
  \<open>'p option\<close>, with \<open>None\<close> for the null type \<^verbatim>\<open>QuantParams()\<close>.
\<close>

type_synonym Operation = nat

datatype Value = OpResult Operation nat | BlockArgument nat

type_synonym OpValue = "Operation \<times> nat"

datatype 'p ElementType = FloatType | QuantizedType 'p | OtherElementType

datatype 'p Type = NoneType | ScalarType "'p ElementType" | ShapedType nat "'p ElementType"

record 'p QuantState =
  params :: "'p option"
  immutable :: bool

datatype RequantizePosition = NO_REQUANTIZE | ON_INPUT | ON_OUTPUT

text \<open>
  \<^verbatim>\<open>RequantizeState\<close>: the field \<open>rparams\<close> is the source's \<^verbatim>\<open>params\<close> (renamed, since
  \<open>params\<close> is the field of \<open>QuantState\<close>). The specification calls \<^verbatim>\<open>ON_OUTPUT\<close>
  "before-consumer" (it is what an operand conflict records) and \<^verbatim>\<open>ON_INPUT\<close>
  "after-producer" (what a result conflict records).
\<close>

record 'p RequantizeState =
  pos :: RequantizePosition
  rparams :: "'p option"
  users :: "OpValue list"

subsection \<open>The function being quantized\<close>

text \<open>
  The part of the MLIR function that the driver reads and rewrites. An operation is the
  index of its record in \<open>ops\<close>, so that creating an operation never changes the identity
  of another; \<open>body\<close> is the order of the operations in the block. \<open>use_lists\<close> is
  the use-list that MLIR keeps for every value: the operands that read the value, the one
  that was added last first. The content of a floating-point constant is a list of
  \<open>APFloat\<close>; a finite element carries its value.
\<close>

datatype APFloat = Finite rat | Infinity | NaN

datatype Attr = DenseFPElementsAttr "APFloat list" | OtherAttr

datatype OpKind = ConstantOp Attr | QuantizeCastOp | DequantizeCastOp | OtherOp

record 'p OperationRec =
  kind :: OpKind
  operands :: "Value list"
  result_types :: "'p Type list"
  volatile :: bool

record 'p FuncOp =
  ops :: "'p OperationRec list"
  body :: "Operation list"
  arg_types :: "'p Type list"
  use_lists :: "Value \<Rightarrow> OpValue list"

text \<open>
  What the embedding interfaces supply per operation: \<^verbatim>\<open>OpQuantSpec\<close> (the bias operands
  with their non-bias operand indices, and the per-channel axis of coefficient operands)
  and \<^verbatim>\<open>OpQuantScaleSpec\<close>.
\<close>

record OpQuantSpec =
  biases_params :: "nat \<rightharpoonup> nat list"
  coeff_op_quant_dim :: "nat \<rightharpoonup> int"

record OpQuantScaleSpec =
  has_same_scale_requirement :: bool
  has_fixed_output_range :: bool

text \<open>
  The members of \<^verbatim>\<open>QuantizationDriver\<close>. \<^verbatim>\<open>rescale_states_\<close> is a map from state index
  to the list of pending requantizations; a state index with no entry has the empty list.
  \<open>builder\<close> is the insertion point of \<^verbatim>\<open>builder_\<close>, a position in \<open>body\<close>. The
  members that only the propagation loop and \<^verbatim>\<open>Finalize\<close> read (\<^verbatim>\<open>args_\<close>,
  \<^verbatim>\<open>quantized_\<close> and the flags of the run) are not part of the record.
\<close>

record 'p Driver =
  fn :: "'p FuncOp"
  builder :: nat
  op_quant_spec_getter :: "Operation \<Rightarrow> OpQuantSpec"
  op_quant_scale_spec_getter :: "Operation \<Rightarrow> OpQuantScaleSpec"
  states :: "'p QuantState list"
  value_to_state :: "Value \<rightharpoonup> nat"
  operand_states :: "OpValue \<rightharpoonup> nat"
  result_states :: "OpValue \<rightharpoonup> nat"
  arg_states :: "nat \<rightharpoonup> nat"
  rescale_states :: "nat \<Rightarrow> 'p RequantizeState list"
  work_list :: "Operation list"
  weights :: "Operation set"
  optimized_weights :: "Operation \<rightharpoonup> int"

text \<open>\<^verbatim>\<open>QuantizedType::getQuantizedElementType\<close>: the quantized element type of a
  type, or null.\<close>

fun getQuantizedElementType :: "'p Type \<Rightarrow> 'p option" where
  "getQuantizedElementType (ShapedType r (QuantizedType p)) = Some p"
| "getQuantizedElementType (ScalarType (QuantizedType p)) = Some p"
| "getQuantizedElementType t = None"

text \<open>
  Modelled from the spec: \<^verbatim>\<open>HasQuantParams\<close> is declared in
  \<^verbatim>\<open>quantization_driver.h\<close>, which is not among the sources; its only uses are the two
  negated tests that compute \<open>immutable\<close>. The specification (sections 3 and 4.1) says
  that \<open>immutable\<close> is true if the Value already carried quantization parameters, and the
  comment above \<^verbatim>\<open>InitializeStateForValue\<close> says "The state is immutable if the type is a
  quantized type"; with the source's \<^verbatim>\<open>immutable = !HasQuantParams(params)\<close> this makes the
  helper the test for the null type, the same test as \<^verbatim>\<open>QuantState::IsEmpty\<close>.
\<close>

definition HasQuantParams :: "'p option \<Rightarrow> bool" where
  "HasQuantParams p = (p = None)"

text \<open>Modelled from the spec: \<^verbatim>\<open>QuantState::IsEmpty\<close> (header): the parameters are
  empty (unset).\<close>

definition IsEmpty :: "'p QuantState \<Rightarrow> bool" where
  "IsEmpty s = (params s = None)"

text \<open>
  \<^verbatim>\<open>InitializeStateForValue\<close>. The source receives pointers to the four containers of the
  driver; the embedding takes the driver and returns it updated. \<open>vtype\<close> is
  \<^verbatim>\<open>value.getType()\<close>.
\<close>

definition InitializeStateForValue ::
  "Operation \<Rightarrow> nat \<Rightarrow> Value \<Rightarrow> 'p Type \<Rightarrow> bool \<Rightarrow> 'p Driver \<Rightarrow> 'p Driver" where
  "InitializeStateForValue op index val vtype as_result d =
     (case value_to_state d val of
        Some cached \<Rightarrow>
          (if as_result
           then d\<lparr>result_states := (result_states d)((op, index) \<mapsto> cached)\<rparr>
           else d\<lparr>operand_states := (operand_states d)((op, index) \<mapsto> cached)\<rparr>)
      | None \<Rightarrow>
          (let ps = getQuantizedElementType vtype;
               immut = \<not> HasQuantParams ps;
               next_state_index = length (states d);
               d1 = d\<lparr>states := states d @ [\<lparr>params = ps, immutable = immut\<rparr>]\<rparr>;
               d2 = (if as_result
                     then d1\<lparr>result_states := (result_states d1)((op, index) \<mapsto> next_state_index)\<rparr>
                     else d1\<lparr>operand_states := (operand_states d1)((op, index) \<mapsto> next_state_index)\<rparr>)
           in d2\<lparr>value_to_state := (value_to_state d2)(val \<mapsto> next_state_index)\<rparr>))"

definition InitializeArgState :: "nat \<Rightarrow> Value \<Rightarrow> 'p Type \<Rightarrow> 'p Driver \<Rightarrow> 'p Driver" where
  "InitializeArgState arg arg_value vtype d =
     (case value_to_state d arg_value of
        Some cached \<Rightarrow> d\<lparr>arg_states := (arg_states d)(arg \<mapsto> cached)\<rparr>
      | None \<Rightarrow>
          (let ps = getQuantizedElementType vtype;
               immut = \<not> HasQuantParams ps;
               next_state_index = length (states d);
               d1 = d\<lparr>states := states d @ [\<lparr>params = ps, immutable = immut\<rparr>]\<rparr>;
               d2 = d1\<lparr>arg_states := (arg_states d1)(arg \<mapsto> next_state_index)\<rparr>
           in d2\<lparr>value_to_state := (value_to_state d2)(arg_value \<mapsto> next_state_index)\<rparr>))"

definition InitializeOperandState :: "Operation \<Rightarrow> nat \<Rightarrow> Value \<Rightarrow> 'p Type \<Rightarrow> 'p Driver \<Rightarrow> 'p Driver" where
  "InitializeOperandState op index val vtype d = InitializeStateForValue op index val vtype False d"

definition InitializeResultState :: "Operation \<Rightarrow> nat \<Rightarrow> Value \<Rightarrow> 'p Type \<Rightarrow> 'p Driver \<Rightarrow> 'p Driver" where
  "InitializeResultState op index val vtype d = InitializeStateForValue op index val vtype True d"

subsection \<open>Reading and rewriting the function\<close>

text \<open>
  The MLIR operations the driver calls. A result index or argument number that the
  function does not have has \<open>NoneType\<close>.
\<close>

definition getNumOperands :: "'p FuncOp \<Rightarrow> Operation \<Rightarrow> nat" where
  "getNumOperands f op = length (operands (ops f ! op))"

definition getNumResults :: "'p FuncOp \<Rightarrow> Operation \<Rightarrow> nat" where
  "getNumResults f op = length (result_types (ops f ! op))"

definition getOperand :: "'p FuncOp \<Rightarrow> Operation \<Rightarrow> nat \<Rightarrow> Value" where
  "getOperand f op i = operands (ops f ! op) ! i"

fun getDefiningOp :: "Value \<Rightarrow> Operation option" where
  "getDefiningOp (OpResult op i) = Some op"
| "getDefiningOp (BlockArgument n) = None"

fun getType :: "'p FuncOp \<Rightarrow> Value \<Rightarrow> 'p Type" where
  "getType f (OpResult op i) =
     (if op < length (ops f) \<and> i < length (result_types (ops f ! op))
      then result_types (ops f ! op) ! i else NoneType)"
| "getType f (BlockArgument n) = (if n < length (arg_types f) then arg_types f ! n else NoneType)"

text \<open>\<^verbatim>\<open>Value::getUses\<close> iterates over the use-list of the value, from its head.\<close>

definition getUses :: "'p FuncOp \<Rightarrow> Value \<Rightarrow> OpValue list" where
  "getUses f v = use_lists f v"

definition getUsers :: "'p FuncOp \<Rightarrow> Value \<Rightarrow> Operation list" where
  "getUsers f v = map fst (getUses f v)"

definition hasOneUse :: "'p FuncOp \<Rightarrow> Value \<Rightarrow> bool" where
  "hasOneUse f v = (length (getUses f v) = 1)"

text \<open>
  \<^verbatim>\<open>IROperand::removeFromCurrent\<close> and \<^verbatim>\<open>IROperand::insertIntoCurrent\<close>: an operand
  leaves the use-list of the value it reads, and enters the use-list of a value at its
  head.
\<close>

definition removeFromCurrent :: "OpValue \<Rightarrow> Value \<Rightarrow> (Value \<Rightarrow> OpValue list) \<Rightarrow> Value \<Rightarrow> OpValue list" where
  "removeFromCurrent use v ul = ul(v := remove1 use (ul v))"

definition insertIntoCurrent :: "OpValue \<Rightarrow> Value \<Rightarrow> (Value \<Rightarrow> OpValue list) \<Rightarrow> Value \<Rightarrow> OpValue list" where
  "insertIntoCurrent use v ul = ul(v := use # ul v)"

text \<open>
  \<^verbatim>\<open>Operation::setOperand\<close> (\<^verbatim>\<open>IROperand::set\<close>): the operand leaves the use-list of
  the old value and enters the use-list of the new one. An operand that the function does
  not have is not set.
\<close>

definition setOperand :: "Operation \<Rightarrow> nat \<Rightarrow> Value \<Rightarrow> 'p FuncOp \<Rightarrow> 'p FuncOp" where
  "setOperand op i v f =
     (if op < length (ops f) \<and> i < length (operands (ops f ! op))
      then f\<lparr>ops := (ops f)[op := (ops f ! op)\<lparr>operands := (operands (ops f ! op))[i := v]\<rparr>],
             use_lists := insertIntoCurrent (op, i) v
                            (removeFromCurrent (op, i) (operands (ops f ! op) ! i) (use_lists f))\<rparr>
      else f)"

text \<open>\<^verbatim>\<open>Operation::replaceUsesOfWith\<close>: every operand of the operation that reads
  \<open>old\<close> is set to \<open>new\<close>, in the order of the operands.\<close>

definition replaceUsesOfWith :: "Operation \<Rightarrow> Value \<Rightarrow> Value \<Rightarrow> 'p FuncOp \<Rightarrow> 'p FuncOp" where
  "replaceUsesOfWith op old new f =
     fold (\<lambda>i g. if operands (ops g ! op) ! i = old then setOperand op i new g else g)
       [0..<length (operands (ops f ! op))] f"

text \<open>\<^verbatim>\<open>Value::replaceAllUsesWith\<close>: the uses of \<open>old\<close> are set to \<open>new\<close> one after the
  other, from the head of the use-list of \<open>old\<close>.\<close>

definition replaceAllUsesWith :: "Value \<Rightarrow> Value \<Rightarrow> 'p FuncOp \<Rightarrow> 'p FuncOp" where
  "replaceAllUsesWith old new f = fold (\<lambda>use. setOperand (fst use) (snd use) new) (use_lists f old) f"

text \<open>The position of an operation in the block (the length of the block if it is not
  there).\<close>

fun index_of :: "Operation \<Rightarrow> Operation list \<Rightarrow> nat" where
  "index_of op [] = 0"
| "index_of op (x # xs) = (if x = op then 0 else Suc (index_of op xs))"

text \<open>
  \<^verbatim>\<open>OpBuilder::create\<close> at position \<open>k\<close> of the block: the new operation gets the next
  identity and is put before the operation that was at \<open>k\<close>; its operands enter the
  use-lists of the values they read, in the order of the operands. The result is the new
  operation and the function.
\<close>

definition create_op :: "nat \<Rightarrow> 'p OperationRec \<Rightarrow> 'p FuncOp \<Rightarrow> Operation \<times> 'p FuncOp" where
  "create_op k r f =
     (length (ops f),
      f\<lparr>ops := ops f @ [r], body := take k (body f) @ [length (ops f)] @ drop k (body f),
        use_lists := fold (\<lambda>i. insertIntoCurrent (length (ops f), i) (operands r ! i))
                       [0..<length (operands r)] (use_lists f)\<rparr>)"

text \<open>
  The function as it is after its operations have been created one after the other, in
  the order of the block, and nothing has been rewritten: the use-list of a value has the
  operands that read it, the last one first.
\<close>

definition creation_uses :: "'p OperationRec list \<Rightarrow> Value \<Rightarrow> OpValue list" where
  "creation_uses os v =
     rev (concat (map (\<lambda>op. map (\<lambda>i. (op, i))
                         (filter (\<lambda>i. operands (os ! op) ! i = v) [0..<length (operands (os ! op))]))
                      [0..<length os]))"

definition created :: "'p OperationRec list \<Rightarrow> 'p Type list \<Rightarrow> 'p FuncOp" where
  "created os ats =
     \<lparr>ops = os, body = [0..<length os], arg_types = ats, use_lists = creation_uses os\<rparr>"

text \<open>\<^verbatim>\<open>builder_.create\<close>: creates at the insertion point of \<^verbatim>\<open>builder_\<close>, which then
  stays behind the new operation.\<close>

definition builder_create :: "'p OperationRec \<Rightarrow> 'p Driver \<Rightarrow> Operation \<times> 'p Driver" where
  "builder_create r d =
     (let (new_op, f) = create_op (builder d) r (fn d)
      in (new_op, d\<lparr>fn := f, builder := Suc (builder d)\<rparr>))"

definition setInsertionPoint :: "Operation \<Rightarrow> 'p Driver \<Rightarrow> 'p Driver" where
  "setInsertionPoint op d = d\<lparr>builder := index_of op (body (fn d))\<rparr>"

definition setInsertionPointAfter :: "Operation \<Rightarrow> 'p Driver \<Rightarrow> 'p Driver" where
  "setInsertionPointAfter op d = d\<lparr>builder := Suc (index_of op (body (fn d)))\<rparr>"

definition setInsertionPointToStart :: "'p Driver \<Rightarrow> 'p Driver" where
  "setInsertionPointToStart d = d\<lparr>builder := 0\<rparr>"

text \<open>\<^verbatim>\<open>QuantizedType::castFromExpressedType\<close> and \<^verbatim>\<open>castToExpressedType\<close>; the
  embedding has one floating-point type, the expressed type of every parameter set.\<close>

fun castFromExpressedType :: "'p \<Rightarrow> 'p Type \<Rightarrow> 'p Type option" where
  "castFromExpressedType p (ScalarType FloatType) = Some (ScalarType (QuantizedType p))"
| "castFromExpressedType p (ShapedType r FloatType) = Some (ShapedType r (QuantizedType p))"
| "castFromExpressedType p t = None"

fun castToExpressedType :: "'p Type \<Rightarrow> 'p Type option" where
  "castToExpressedType (ScalarType (QuantizedType p)) = Some (ScalarType FloatType)"
| "castToExpressedType (ShapedType r (QuantizedType p)) = Some (ShapedType r FloatType)"
| "castToExpressedType t = None"

subsection \<open>Access to the state store\<close>

text \<open>
  Modelled from the spec: the accessors \<^verbatim>\<open>GetOperandQuantState\<close>,
  \<^verbatim>\<open>GetResultQuantState\<close>, \<^verbatim>\<open>GetArgQuantState\<close>, \<^verbatim>\<open>GetOperandRequantizeStates\<close>,
  \<^verbatim>\<open>GetResultRequantizeStates\<close> and \<^verbatim>\<open>GetArgRequantizeStates\<close> are declared in the
  header, which is not among the sources. By section 3 of the specification the state
  store owns the QuantState and RequantizeState records, keyed by Value identity: a
  position resolves through \<^verbatim>\<open>operand_states_\<close>, \<^verbatim>\<open>result_states_\<close> or \<^verbatim>\<open>arg_states_\<close>
  to the index of its state, and the pending requantizations are kept per state index.
  A position that was never initialized resolves to index 0, as the subscript of a map of
  integers does.
\<close>

definition state_index :: "('k \<rightharpoonup> nat) \<Rightarrow> 'k \<Rightarrow> nat" where
  "state_index m k = (case m k of Some i \<Rightarrow> i | None \<Rightarrow> 0)"

definition GetOperandQuantState :: "'p Driver \<Rightarrow> Operation \<Rightarrow> nat \<Rightarrow> 'p QuantState" where
  "GetOperandQuantState d op index = states d ! state_index (operand_states d) (op, index)"

definition GetResultQuantState :: "'p Driver \<Rightarrow> Operation \<Rightarrow> nat \<Rightarrow> 'p QuantState" where
  "GetResultQuantState d op index = states d ! state_index (result_states d) (op, index)"

definition GetArgQuantState :: "'p Driver \<Rightarrow> nat \<Rightarrow> 'p QuantState" where
  "GetArgQuantState d arg = states d ! state_index (arg_states d) arg"

definition GetOperandRequantizeStates :: "'p Driver \<Rightarrow> Operation \<Rightarrow> nat \<Rightarrow> 'p RequantizeState list" where
  "GetOperandRequantizeStates d op index = rescale_states d (state_index (operand_states d) (op, index))"

definition GetResultRequantizeStates :: "'p Driver \<Rightarrow> Operation \<Rightarrow> nat \<Rightarrow> 'p RequantizeState list" where
  "GetResultRequantizeStates d op index = rescale_states d (state_index (result_states d) (op, index))"

definition GetArgRequantizeStates :: "'p Driver \<Rightarrow> nat \<Rightarrow> 'p RequantizeState list" where
  "GetArgRequantizeStates d arg = rescale_states d (state_index (arg_states d) arg)"

text \<open>
  Modelled from the spec: \<^verbatim>\<open>AddUserToList\<close> and \<^verbatim>\<open>AddOperandToList\<close> are declared in
  the header, which is not among the sources. The specification gives them no effect on
  the state store; by their names they put the users of a result, and the operation that
  defines an operand, on the work list. No claim reads the work list.
\<close>

definition AddUserToList :: "Operation \<Rightarrow> nat \<Rightarrow> 'p Driver \<Rightarrow> 'p Driver" where
  "AddUserToList op index d = d\<lparr>work_list := work_list d @ getUsers (fn d) (OpResult op index)\<rparr>"

definition AddOperandToList :: "Operation \<Rightarrow> nat \<Rightarrow> 'p Driver \<Rightarrow> 'p Driver" where
  "AddOperandToList op index d =
     (case getDefiningOp (getOperand (fn d) op index) of
        Some operand_op \<Rightarrow> d\<lparr>work_list := work_list d @ [operand_op]\<rparr>
      | None \<Rightarrow> d)"

subsection \<open>The assignment contract\<close>

text \<open>
  \<^verbatim>\<open>SetResultParams\<close> and \<^verbatim>\<open>SetOperandParams\<close> return the \<^verbatim>\<open>bool\<close> of the source
  ("changed") and the driver. Equality of parameters is equality of the (uniqued) types.
\<close>

definition SetResultParams :: "Operation \<Rightarrow> nat \<Rightarrow> 'p option \<Rightarrow> 'p Driver \<Rightarrow> bool \<times> 'p Driver" where
  "SetResultParams op res_index ps d =
     (let s = state_index (result_states d) (op, res_index);
          state = GetResultQuantState d op res_index
      in if params state = ps then (False, d)
         else if \<not> IsEmpty state
         then (True, d\<lparr>rescale_states := (rescale_states d)
                 (s := rescale_states d s @ [\<lparr>pos = ON_INPUT, rparams = ps, users = []\<rparr>])\<rparr>)
         else (True, AddUserToList op res_index
                 (d\<lparr>states := (states d)[s := state\<lparr>params := ps\<rparr>]\<rparr>)))"

text \<open>The loop of \<^verbatim>\<open>SetOperandParams\<close> over the pending requantizations: the first one
  with the proposed parameters gets the user; \<open>None\<close> if there is none.\<close>

fun add_user_to_rescale ::
  "'p option \<Rightarrow> OpValue \<Rightarrow> 'p RequantizeState list \<Rightarrow> 'p RequantizeState list option" where
  "add_user_to_rescale ps u [] = None"
| "add_user_to_rescale ps u (rescale # rest) =
     (if rparams rescale = ps then Some (rescale\<lparr>users := users rescale @ [u]\<rparr> # rest)
      else map_option ((#) rescale) (add_user_to_rescale ps u rest))"

definition SetOperandParams ::
  "Operation \<Rightarrow> nat \<Rightarrow> 'p option \<Rightarrow> bool \<Rightarrow> 'p Driver \<Rightarrow> bool \<times> 'p Driver" where
  "SetOperandParams op index ps override d =
     (let s = state_index (operand_states d) (op, index);
          state = GetOperandQuantState d op index
      in if params state = ps then (False, d)
         else if \<not> IsEmpty state \<and> \<not> override
         then (case add_user_to_rescale ps (op, index) (rescale_states d s) of
                 Some rescales \<Rightarrow> (True, d\<lparr>rescale_states := (rescale_states d)(s := rescales)\<rparr>)
               | None \<Rightarrow>
                   (True, d\<lparr>rescale_states := (rescale_states d)
                      (s := rescale_states d s @
                            [\<lparr>pos = ON_OUTPUT, rparams = ps, users = [(op, index)]\<rparr>])\<rparr>))
         else (True, AddOperandToList op index
                 (d\<lparr>states := (states d)[s := state\<lparr>params := ps\<rparr>]\<rparr>)))"

subsection \<open>Same-scale unification\<close>

text \<open>
  \<^verbatim>\<open>GetQuantParamsForSameScaleConstraint\<close>. The two vectors of the source are a pair of
  lists; \<open>push_state\<close> is the body of both loops. \<open>hd\<close> and \<open>last\<close> are the source's
  \<^verbatim>\<open>front()\<close> and \<^verbatim>\<open>back()\<close>, read only where the tests before them make the vector
  non-empty.
\<close>

fun push_state ::
  "'p QuantState \<Rightarrow> 'p QuantState list \<times> 'p QuantState list \<Rightarrow> 'p QuantState list \<times> 'p QuantState list" where
  "push_state state (mutable_states, immutable_states) =
     (if immutable state then (mutable_states, immutable_states @ [state])
      else if \<not> IsEmpty state then (mutable_states @ [state], immutable_states)
      else (mutable_states, immutable_states))"

definition GetQuantParamsForSameScaleConstraint :: "'p Driver \<Rightarrow> Operation \<Rightarrow> 'p option" where
  "GetQuantParamsForSameScaleConstraint d op =
     (let (mutable_states, immutable_states) =
            fold (\<lambda>i. push_state (GetOperandQuantState d op i)) [0..<getNumOperands (fn d) op] ([], []);
          immutable_operands_num = length immutable_states;
          mutable_operands_num = length mutable_states
      in if getNumOperands (fn d) op = 1 \<and> immutable_operands_num = 1
         then params (hd immutable_states)
         else
           (let (mutable_states, immutable_states) =
                  fold (\<lambda>i. push_state (GetResultQuantState d op i)) [0..<getNumResults (fn d) op]
                    (mutable_states, immutable_states);
                immutable_results_num = length immutable_states - immutable_operands_num;
                mutable_results_num = length mutable_states - mutable_operands_num
            in if getNumResults (fn d) op = 1 \<and> immutable_results_num = 1
               then params (last immutable_states)
               else if immutable_states \<noteq> [] then params (hd immutable_states)
               else if getNumOperands (fn d) op = 1 \<and> mutable_operands_num = 1
               then params (hd mutable_states)
               else if getNumResults (fn d) op = 1 \<and> mutable_results_num = 1
               then params (last mutable_states)
               else if mutable_states \<noteq> [] then params (hd mutable_states)
               else None))"

text \<open>
  The priority order as the specification words it (section 4.4), over the list of the
  operand states and the list of the result states of the operation: \<open>ready\<close> is
  "mutable and nonempty", \<open>find\<close> gives the first state encountered.
\<close>

definition ready :: "'p QuantState \<Rightarrow> bool" where
  "ready s = (\<not> immutable s \<and> \<not> IsEmpty s)"

definition same_scale_priority :: "'p QuantState list \<Rightarrow> 'p QuantState list \<Rightarrow> 'p option" where
  "same_scale_priority operand_sts result_sts =
     (if length operand_sts = 1 \<and> immutable (hd operand_sts) then params (hd operand_sts)
      else if length result_sts = 1 \<and> immutable (hd result_sts) then params (hd result_sts)
      else case find immutable (operand_sts @ result_sts) of
        Some s \<Rightarrow> params s
      | None \<Rightarrow>
          (if length operand_sts = 1 \<and> ready (hd operand_sts) then params (hd operand_sts)
           else if length result_sts = 1 \<and> ready (hd result_sts) then params (hd result_sts)
           else case find ready (operand_sts @ result_sts) of
             Some s \<Rightarrow> params s
           | None \<Rightarrow> None))"

definition operand_state_list :: "'p Driver \<Rightarrow> Operation \<Rightarrow> 'p QuantState list" where
  "operand_state_list d op = map (GetOperandQuantState d op) [0..<getNumOperands (fn d) op]"

definition result_state_list :: "'p Driver \<Rightarrow> Operation \<Rightarrow> 'p QuantState list" where
  "result_state_list d op = map (GetResultQuantState d op) [0..<getNumResults (fn d) op]"

subsection \<open>The constant preprocessor and the set-up of the states\<close>

definition GetQuantSpec :: "'p Driver \<Rightarrow> Operation \<Rightarrow> OpQuantSpec" where
  "GetQuantSpec d op = op_quant_spec_getter d op"

definition GetQuantScaleSpec :: "'p Driver \<Rightarrow> Operation \<Rightarrow> OpQuantScaleSpec" where
  "GetQuantScaleSpec d op = op_quant_scale_spec_getter d op"

fun isFinite :: "APFloat \<Rightarrow> bool" where
  "isFinite (Finite x) = True"
| "isFinite Infinity = False"
| "isFinite NaN = False"

text \<open>
  What the source does outside of its defined behaviour is an error of the embedding:
  reading an element that a content or a vector does not have (\<open>IndexOutOfRange\<close>),
  reading a field of the null type (\<open>NullType\<close>), and a \<^verbatim>\<open>cast\<close> to a quantized type of
  another kind (\<open>CastFailed\<close>).
\<close>

datatype error = IndexOutOfRange | NullType | CastFailed

text \<open>
  The body of the loop over the cached uses in \<^verbatim>\<open>PreprocessConstantOps\<close>, for the use
  \<open>(user, operand_num)\<close> of the constant \<open>cst\<close>; \<open>uses_size\<close> is \<^verbatim>\<open>uses.size()\<close>.
  \<^verbatim>\<open>optimized_weights_.insert\<close> keeps an entry that is already there. The new constant
  has the value and the type of \<open>cst\<close>.
\<close>

definition preprocess_use :: "Operation \<Rightarrow> nat \<Rightarrow> OpValue \<Rightarrow> 'p Driver \<Rightarrow> 'p Driver" where
  "preprocess_use cst uses_size use d =
     (let user = fst use; operand_num = snd use;
          spec = GetQuantSpec d user;
          scale_spec = GetQuantScaleSpec d user;
          biases = biases_params spec
      in if biases operand_num = None \<and> \<not> has_same_scale_requirement scale_spec \<and>
            kind (ops (fn d) ! user) \<noteq> QuantizeCastOp
         then (let d1 = d\<lparr>weights := insert cst (weights d)\<rparr>
               in case coeff_op_quant_dim spec operand_num of
                    Some quant_dim \<Rightarrow>
                      (if optimized_weights d1 cst = None
                       then d1\<lparr>optimized_weights := (optimized_weights d1)(cst \<mapsto> quant_dim)\<rparr>
                       else d1)
                  | None \<Rightarrow> d1)
         else if uses_size > 1
         then (let (new_cst, d1) =
                     builder_create \<lparr>kind = kind (ops (fn d) ! cst), operands = [],
                        result_types = result_types (ops (fn d) ! cst), volatile = False\<rparr> d
               in d1\<lparr>fn := setOperand user operand_num (OpResult new_cst 0) (fn d1)\<rparr>)
         else d)"

text \<open>The callback of the walk, for one operation; operations that are not constants
  are not visited.\<close>

definition preprocess_uses :: "Operation \<Rightarrow> 'p Driver \<Rightarrow> 'p Driver" where
  "preprocess_uses cst d =
     (let d1 = setInsertionPoint cst d;
          uses = getUses (fn d1) (OpResult cst 0)
      in fold (preprocess_use cst (length uses)) uses d1)"

definition preprocess_constant :: "Operation \<Rightarrow> 'p Driver \<Rightarrow> error + 'p Driver" where
  "preprocess_constant cst d =
     (case kind (ops (fn d) ! cst) of
        ConstantOp attr \<Rightarrow>
          (case getType (fn d) (OpResult cst 0) of
             ShapedType r FloatType \<Rightarrow>
               (case attr of
                  DenseFPElementsAttr [] \<Rightarrow> Inl IndexOutOfRange
                | DenseFPElementsAttr (x # xs) \<Rightarrow>
                    if \<not> isFinite x then Inr d else Inr (preprocess_uses cst d)
                | OtherAttr \<Rightarrow> Inr (preprocess_uses cst d))
           | _ \<Rightarrow> Inr d)
      | _ \<Rightarrow> Inr d)"

text \<open>
  \<^verbatim>\<open>fn_.walk\<close> visits the operations of the block in order; the constants created by
  the callback are put before the one being visited and are not visited.
\<close>

fun walk_constants :: "Operation list \<Rightarrow> 'p Driver \<Rightarrow> error + 'p Driver" where
  "walk_constants [] d = Inr d"
| "walk_constants (op # rest) d =
     (case preprocess_constant op d of Inl e \<Rightarrow> Inl e | Inr d' \<Rightarrow> walk_constants rest d')"

definition PreprocessConstantOps :: "'p Driver \<Rightarrow> error + 'p Driver" where
  "PreprocessConstantOps d = walk_constants (body (fn d)) d"

text \<open>\<^verbatim>\<open>IsWeight\<close> (header): membership in \<^verbatim>\<open>weights_\<close>, the set that
  \<^verbatim>\<open>PreprocessConstantOps\<close> fills.\<close>

definition IsWeight :: "'p Driver \<Rightarrow> Operation \<Rightarrow> bool" where
  "IsWeight d cst = (cst \<in> weights d)"

text \<open>
  \<^verbatim>\<open>SetupAllStates\<close>. A value that is only used by a quantize marker is represented by
  the result of the marker; an operand that a dequantize marker defines by the input of
  the marker. \<^verbatim>\<open>IsOpQuantizable\<close> is not among the sources and is a parameter.
\<close>

definition quantized_value :: "'p FuncOp \<Rightarrow> Value \<Rightarrow> Value" where
  "quantized_value f v =
     (if hasOneUse f v
      then (let user = fst (hd (getUses f v))
            in if kind (ops f ! user) = QuantizeCastOp then OpResult user 0 else v)
      else v)"

definition dequantized_operand :: "'p FuncOp \<Rightarrow> Value \<Rightarrow> Value" where
  "dequantized_operand f operand =
     (case getDefiningOp operand of
        Some inst \<Rightarrow>
          (if kind (ops f ! inst) = DequantizeCastOp then getOperand f inst 0 else operand)
      | None \<Rightarrow> operand)"

definition setup_arg :: "nat \<Rightarrow> 'p Driver \<Rightarrow> 'p Driver" where
  "setup_arg arg d =
     (let v = quantized_value (fn d) (BlockArgument arg)
      in InitializeArgState arg v (getType (fn d) v) d)"

definition setup_operand :: "Operation \<Rightarrow> nat \<Rightarrow> 'p Driver \<Rightarrow> 'p Driver" where
  "setup_operand op i d =
     (let operand = dequantized_operand (fn d) (getOperand (fn d) op i)
      in InitializeOperandState op i operand (getType (fn d) operand) d)"

definition setup_result :: "Operation \<Rightarrow> nat \<Rightarrow> 'p Driver \<Rightarrow> 'p Driver" where
  "setup_result op res d =
     (let result = quantized_value (fn d) (OpResult op res)
      in InitializeResultState op res result (getType (fn d) result) d)"

definition setup_op :: "(Operation \<Rightarrow> bool) \<Rightarrow> Operation \<Rightarrow> 'p Driver \<Rightarrow> 'p Driver" where
  "setup_op IsOpQuantizable op d =
     (if \<not> IsOpQuantizable op \<and> \<not> has_same_scale_requirement (GetQuantScaleSpec d op) then d
      else (let d1 = d\<lparr>work_list := work_list d @ [op]\<rparr>;
                d2 = fold (setup_operand op) [0..<getNumOperands (fn d1) op] d1
            in fold (setup_result op) [0..<getNumResults (fn d2) op] d2))"

definition SetupAllStates :: "(Operation \<Rightarrow> bool) \<Rightarrow> 'p Driver \<Rightarrow> 'p Driver" where
  "SetupAllStates IsOpQuantizable d =
     (let d1 = fold setup_arg [0..<length (arg_types (fn d))] d
      in fold (setup_op IsOpQuantizable) (body (fn d1)) d1)"

definition Initialize :: "(Operation \<Rightarrow> bool) \<Rightarrow> 'p Driver \<Rightarrow> error + 'p Driver" where
  "Initialize IsOpQuantizable d =
     (case PreprocessConstantOps d of
        Inl e \<Rightarrow> Inl e
      | Inr d' \<Rightarrow> Inr (SetupAllStates IsOpQuantizable d'))"

text \<open>The driver as its constructor leaves it: the function, the two getters, and an
  empty state store.\<close>

definition new_driver ::
  "'p FuncOp \<Rightarrow> (Operation \<Rightarrow> OpQuantSpec) \<Rightarrow> (Operation \<Rightarrow> OpQuantScaleSpec) \<Rightarrow> 'p Driver" where
  "new_driver f spec_getter scale_spec_getter =
     \<lparr>fn = f, builder = 0, op_quant_spec_getter = spec_getter,
      op_quant_scale_spec_getter = scale_spec_getter, states = [],
      value_to_state = Map.empty, operand_states = Map.empty, result_states = Map.empty,
      arg_states = Map.empty, rescale_states = (\<lambda>s. []), work_list = [], weights = {},
      optimized_weights = Map.empty\<rparr>"

text \<open>
  A position is an operand of an operation, a result of an operation, or an argument.
  \<open>initialize\<close> is the initialization of a position for a value, \<open>position_state\<close> the
  state index the position resolves to, \<open>read_state\<close> the state read through it, and
  \<open>assign\<close> the assignment of parameters through an operand or result position (there is
  no assignment through an argument position).
\<close>

datatype position = OperandPos OpValue | ResultPos OpValue | ArgPos nat

fun initialize :: "position \<Rightarrow> Value \<Rightarrow> 'p Type \<Rightarrow> 'p Driver \<Rightarrow> 'p Driver" where
  "initialize (OperandPos (op, i)) v t d = InitializeOperandState op i v t d"
| "initialize (ResultPos (op, i)) v t d = InitializeResultState op i v t d"
| "initialize (ArgPos a) v t d = InitializeArgState a v t d"

fun position_state :: "'p Driver \<Rightarrow> position \<Rightarrow> nat option" where
  "position_state d (OperandPos u) = operand_states d u"
| "position_state d (ResultPos u) = result_states d u"
| "position_state d (ArgPos a) = arg_states d a"

fun read_state :: "'p Driver \<Rightarrow> position \<Rightarrow> 'p QuantState" where
  "read_state d (OperandPos (op, i)) = GetOperandQuantState d op i"
| "read_state d (ResultPos (op, i)) = GetResultQuantState d op i"
| "read_state d (ArgPos a) = GetArgQuantState d a"

fun assign :: "position \<Rightarrow> 'p option \<Rightarrow> bool \<Rightarrow> 'p Driver \<Rightarrow> 'p Driver" where
  "assign (OperandPos (op, i)) ps override d = snd (SetOperandParams op i ps override d)"
| "assign (ResultPos (op, i)) ps override d = snd (SetResultParams op i ps d)"
| "assign (ArgPos a) ps override d = d"

text \<open>A sequence of initializations, in the order of the calls, and the value of the
  last initialization of a position in it.\<close>

definition initialize_all :: "(position \<times> Value \<times> 'p Type) list \<Rightarrow> 'p Driver \<Rightarrow> 'p Driver" where
  "initialize_all calls d = fold (\<lambda>(p, v, t). initialize p v t) calls d"

fun last_value :: "position \<Rightarrow> (position \<times> Value \<times> 'p Type) list \<Rightarrow> Value option" where
  "last_value p [] = None"
| "last_value p ((q, v, t) # calls) =
     (case last_value p calls of Some w \<Rightarrow> Some w | None \<Rightarrow> if q = p then Some v else None)"

text \<open>The state store is consistent: every value has a state of its own in the vector of
  states.\<close>

definition store_ok :: "'p Driver \<Rightarrow> bool" where
  "store_ok d = (inj_on (value_to_state d) (dom (value_to_state d)) \<and>
                 (\<forall>i \<in> ran (value_to_state d). i < length (states d)))"

text \<open>The state index that the initialization of a position for the value \<open>v\<close> resolves
  to: the cached one, or the next free one.\<close>

definition fresh_index :: "'p Driver \<Rightarrow> Value \<Rightarrow> nat" where
  "fresh_index d v = (case value_to_state d v of Some c \<Rightarrow> c | None \<Rightarrow> length (states d))"

subsection \<open>The materializer: requantization\<close>

text \<open>
  \<^verbatim>\<open>RequantizeValue\<close>, \<^verbatim>\<open>RequantizeOpResult\<close> and \<^verbatim>\<open>RequantizeArg\<close> rewrite the function
  and move the insertion point of \<^verbatim>\<open>builder_\<close>; they read the list of pending
  requantizations that they are given. A pending entry without parameters has no type
  to cast to (the source would call a method of the null type).
\<close>

fun cast_from_expressed :: "'p option \<Rightarrow> 'p Type \<Rightarrow> 'p Type option" where
  "cast_from_expressed None t = None"
| "cast_from_expressed (Some p) t = castFromExpressedType p t"

text \<open>The branch of \<^verbatim>\<open>RequantizeValue\<close> for \<^verbatim>\<open>ON_INPUT\<close>: one quantize marker after the
  value, which takes over all uses of the value.\<close>

definition requantize_on_input :: "Value \<Rightarrow> 'p RequantizeState \<Rightarrow> 'p Driver \<Rightarrow> 'p Driver" where
  "requantize_on_input val state d =
     (case cast_from_expressed (rparams state) (getType (fn d) val) of
        None \<Rightarrow> d
      | Some new_type \<Rightarrow>
          (let (requantize_op, d1) =
                 builder_create \<lparr>kind = QuantizeCastOp, operands = [val],
                                 result_types = [new_type], volatile = False\<rparr> d;
               f1 = replaceAllUsesWith val (OpResult requantize_op 0) (fn d1);
               f2 = replaceUsesOfWith requantize_op (OpResult requantize_op 0) val f1
           in d1\<lparr>fn := f2\<rparr>))"

text \<open>The loop of \<^verbatim>\<open>RequantizeValue\<close> over the pending entries, for \<^verbatim>\<open>ON_OUTPUT\<close>;
  \<open>dequant_op\<close> is the one dequantize marker that uses the value.\<close>

fun requantize_on_output ::
  "Value \<Rightarrow> Operation \<Rightarrow> bool \<Rightarrow> 'p RequantizeState list \<Rightarrow> 'p Driver \<Rightarrow> 'p Driver" where
  "requantize_on_output val dequant_op clobber_first [] d = d"
| "requantize_on_output val dequant_op clobber_first (state # rest) d =
     (case castToExpressedType (getType (fn d) val) of
        None \<Rightarrow> requantize_on_output val dequant_op clobber_first rest d
      | Some expressed_type \<Rightarrow>
          (case cast_from_expressed (rparams state) expressed_type of
             None \<Rightarrow> requantize_on_output val dequant_op clobber_first rest d
           | Some new_type \<Rightarrow>
               (let (requantize_op, d1) =
                      builder_create \<lparr>kind = QuantizeCastOp, operands = [val],
                                      result_types = [new_type], volatile = False\<rparr> d
                in if clobber_first
                   then requantize_on_output val dequant_op False rest
                          (d1\<lparr>fn := setOperand dequant_op 0 (OpResult requantize_op 0) (fn d1)\<rparr>)
                   else (let (new_dequant_op, d2) =
                               builder_create \<lparr>kind = DequantizeCastOp,
                                  operands = [OpResult requantize_op 0],
                                  result_types = [getType (fn d1) (OpResult dequant_op 0)],
                                  volatile = False\<rparr> d1;
                             f3 = fold (\<lambda>op_index. setOperand (fst op_index) (snd op_index)
                                          (OpResult new_dequant_op 0)) (users state) (fn d2)
                         in requantize_on_output val dequant_op False rest (d2\<lparr>fn := f3\<rparr>)))))"

definition RequantizeValue :: "Value \<Rightarrow> 'p RequantizeState list \<Rightarrow> 'p Driver \<Rightarrow> 'p Driver" where
  "RequantizeValue val sts d =
     (case sts of
        [] \<Rightarrow> d
      | front # rest \<Rightarrow>
          if pos front = NO_REQUANTIZE then d
          else if pos front = ON_INPUT then requantize_on_input val front d
          else if \<not> hasOneUse (fn d) val then d
          else (let dequant_op = fst (hd (getUses (fn d) val))
                in if kind (ops (fn d) ! dequant_op) \<noteq> DequantizeCastOp then d
                   else (let num_uses = length (getUses (fn d) (OpResult dequant_op 0));
                             clobber_first = (num_uses \<le> length sts)
                         in requantize_on_output val dequant_op clobber_first sts d)))"

text \<open>\<^verbatim>\<open>RequantizeOpResult\<close>. The first use of a value without uses is not read.\<close>

definition RequantizeOpResult ::
  "Operation \<Rightarrow> nat \<Rightarrow> 'p RequantizeState list \<Rightarrow> 'p Driver \<Rightarrow> 'p Driver" where
  "RequantizeOpResult op index sts d =
     (case sts of
        [] \<Rightarrow> d
      | front # rest \<Rightarrow>
          (let d1 = setInsertionPointAfter op d;
               val = OpResult op index;
               p = pos front
           in if p = NO_REQUANTIZE then d1
              else if \<exists>state \<in> set sts. pos state \<noteq> p then d1
              else if p = ON_OUTPUT
              then (case getUses (fn d1) val of
                      [] \<Rightarrow> RequantizeValue val sts d1
                    | use # others \<Rightarrow>
                        if kind (ops (fn d1) ! fst use) = QuantizeCastOp
                        then RequantizeValue (OpResult (fst use) 0) sts
                               (setInsertionPointAfter (fst use) d1)
                        else RequantizeValue val sts d1)
              else RequantizeValue val sts d1))"

definition RequantizeArg :: "nat \<Rightarrow> 'p RequantizeState list \<Rightarrow> 'p Driver \<Rightarrow> 'p Driver" where
  "RequantizeArg arg sts d =
     (let val = BlockArgument arg;
          d1 = setInsertionPointToStart d
      in if hasOneUse (fn d1) val
         then (let user = fst (hd (getUses (fn d1) val))
               in if kind (ops (fn d1) ! user) = QuantizeCastOp
                  then RequantizeValue (OpResult user 0) sts (setInsertionPointAfter user d1)
                  else RequantizeValue val sts d1)
         else RequantizeValue val sts d1)"

text \<open>A use of a constant is weight-like when the user does not mark the operand as a
  bias, has no same-scale requirement and is not a quantize marker: the test of
  \<open>preprocess_use\<close>.\<close>

definition weight_like :: "'p Driver \<Rightarrow> OpValue \<Rightarrow> bool" where
  "weight_like d use =
     (biases_params (GetQuantSpec d (fst use)) (snd use) = None \<and>
      \<not> has_same_scale_requirement (GetQuantScaleSpec d (fst use)) \<and>
      kind (ops (fn d) ! fst use) \<noteq> QuantizeCastOp)"

text \<open>The function is well-formed: the operations of the block are operations of the
  function, each once, and the use-list of a value has operands that read the value, each
  once.\<close>

definition wf_fn :: "'p FuncOp \<Rightarrow> bool" where
  "wf_fn f =
     (distinct (body f) \<and> list_all (\<lambda>op. op < length (ops f)) (body f) \<and>
      (\<forall>v. distinct (getUses f v) \<and>
           (\<forall>use \<in> set (getUses f v).
              fst use < length (ops f) \<and> snd use < length (operands (ops f ! fst use)) \<and>
              operands (ops f ! fst use) ! snd use = v)))"

text \<open>The constant that \<open>preprocess_use\<close> creates for a propagated use: the value and
  the type of \<open>cst\<close>.\<close>

definition constant_copy :: "Operation \<Rightarrow> 'p Driver \<Rightarrow> 'p OperationRec" where
  "constant_copy cst d =
     \<lparr>kind = kind (ops (fn d) ! cst), operands = [],
      result_types = result_types (ops (fn d) ! cst), volatile = False\<rparr>"

definition propagated :: "'p Driver \<Rightarrow> OpValue \<Rightarrow> bool" where
  "propagated d use = (\<not> weight_like d use)"

text \<open>The uses are operands that the function has.\<close>

definition uses_ok :: "'p Driver \<Rightarrow> OpValue list \<Rightarrow> bool" where
  "uses_ok d us =
     list_all (\<lambda>u. fst u < length (ops (fn d)) \<and> snd u < length (operands (ops (fn d) ! fst u))) us"

text \<open>The operation is a constant that the preprocessor processes: a constant of a
  shaped float type whose content, if it is a dense floating-point content, has a finite
  element 0.\<close>

definition processed_constant :: "'p FuncOp \<Rightarrow> Operation \<Rightarrow> bool" where
  "processed_constant f cst =
     (case kind (ops f ! cst) of
        ConstantOp attr \<Rightarrow>
          (case getType f (OpResult cst 0) of
             ShapedType r FloatType \<Rightarrow>
               (case attr of
                  DenseFPElementsAttr [] \<Rightarrow> False
                | DenseFPElementsAttr (x # xs) \<Rightarrow> isFinite x
                | OtherAttr \<Rightarrow> True)
           | _ \<Rightarrow> False)
      | _ \<Rightarrow> False)"

subsection \<open>Uniform quantized types and the arithmetic of doubles\<close>

text \<open>
  The two kinds of \<^verbatim>\<open>QuantizedType\<close> that the bias adjustment reads: flags, width of the
  storage type, scale (or scales), zero point (or zero points), quantized dimension, and
  the bounds of the storage type. The expressed type is the one float type. A scale of a
  type is a finite double, a rational number.
\<close>

datatype QType =
    UniformQuantizedType (getFlags: nat) (getStorageTypeIntegralWidth: nat) (getScale: rat)
      (getZeroPoint: int) (getStorageTypeMin: int) (getStorageTypeMax: int)
  | UniformQuantizedPerAxisType (getFlags: nat) (getStorageTypeIntegralWidth: nat)
      (getScales: "rat list") (getZeroPoints: "int list") (getQuantizedDimension: nat)
      (getStorageTypeMin: int) (getStorageTypeMax: int)

text \<open>
  A double is a finite double, an infinity, or not a number. \<open>round_to_double\<close> rounds a
  rational number to the nearest double, ties to the even significand, as IEEE 754
  division does: the significand has 53 bits, below \<open>2\<^sup>-\<^sup>1\<^sup>0\<^sup>2\<^sup>2\<close> the doubles are the
  multiples of \<open>2\<^sup>-\<^sup>1\<^sup>0\<^sup>7\<^sup>4\<close> (so that a small quotient is rounded to zero), and a number
  that is rounded to \<open>2\<^sup>1\<^sup>0\<^sup>2\<^sup>4\<close> or more gives an infinity. The two zeros are one number.
\<close>

datatype double = Fin rat | PosInf | NegInf | NotANumber

definition pow2 :: "int \<Rightarrow> rat" where
  "pow2 e = (if 0 \<le> e then 2 ^ nat e else 1 / 2 ^ nat (- e))"

text \<open>For \<open>0 < x\<close>, the exponent \<open>e\<close> with \<open>2\<^sup>e \<le> x < 2\<^sup>e\<^sup>+\<^sup>1\<close>.\<close>

definition floor_log2 :: "rat \<Rightarrow> int" where
  "floor_log2 x =
     (if 1 \<le> x then bitlen \<lfloor>x\<rfloor> - 1 else - bitlen (\<lceil>1 / x\<rceil> - 1))"

definition round_half_even :: "rat \<Rightarrow> int" where
  "round_half_even m =
     (let f = \<lfloor>m\<rfloor>; r = m - of_int f
      in if r < 1 / 2 then f else if 1 / 2 < r then f + 1 else if even f then f else f + 1)"

definition round_to_double :: "rat \<Rightarrow> double" where
  "round_to_double x =
     (if x = 0 then Fin 0
      else (let a = \<bar>x\<bar>; ulp = pow2 (max (floor_log2 a) (- 1022) - 52);
                r = of_int (round_half_even (a / ulp)) * ulp
            in if 1024 < bitlen \<lfloor>r\<rfloor> then (if 0 < x then PosInf else NegInf)
               else Fin (sgn x * r)))"

text \<open>\<^verbatim>\<open>std::abs\<close> of an element of the content, a double.\<close>

fun abs_double :: "APFloat \<Rightarrow> double" where
  "abs_double (Finite x) = Fin \<bar>x\<bar>"
| "abs_double Infinity = PosInf"
| "abs_double NaN = NotANumber"

text \<open>The comparisons \<^verbatim>\<open><\<close> and \<^verbatim>\<open>>\<close> of doubles: false if an operand is not a number.\<close>

fun dless :: "double \<Rightarrow> double \<Rightarrow> bool" where
  "dless (Fin a) (Fin b) = (a < b)"
| "dless (Fin a) PosInf = True"
| "dless NegInf (Fin b) = True"
| "dless NegInf PosInf = True"
| "dless x y = False"

definition dgreater :: "double \<Rightarrow> double \<Rightarrow> bool" where
  "dgreater x y = dless y x"

text \<open>The quotient of a double by a finite double (a scale, or \<open>kBiasMax\<close>).\<close>

fun ddiv :: "double \<Rightarrow> rat \<Rightarrow> double" where
  "ddiv (Fin a) b =
     (if b = 0 then (if a = 0 then NotANumber else if 0 < a then PosInf else NegInf)
      else round_to_double (a / b))"
| "ddiv PosInf b = (if b < 0 then NegInf else PosInf)"
| "ddiv NegInf b = (if b < 0 then PosInf else NegInf)"
| "ddiv NotANumber b = NotANumber"

text \<open>\<^verbatim>\<open>std::numeric_limits<int32_t>::max() / 2\<close>, a division of integers.\<close>

definition kBiasMax :: int where
  "kBiasMax = 2147483647 div 2"

text \<open>
  \<^verbatim>\<open>getChecked\<close> of the two kinds of type gives the null type when the verification of
  the type fails; of the invariants that MLIR verifies, the embedding has the one that
  the adjustment can break: a scale is positive and finite.
\<close>

fun legal_scale :: "double \<Rightarrow> rat option" where
  "legal_scale (Fin x) = (if 0 < x then Some x else None)"
| "legal_scale PosInf = None"
| "legal_scale NegInf = None"
| "legal_scale NotANumber = None"

definition getChecked :: "nat \<Rightarrow> nat \<Rightarrow> double \<Rightarrow> int \<Rightarrow> int \<Rightarrow> int \<Rightarrow> QType option" where
  "getChecked flags width sc zero_point smin smax =
     map_option (\<lambda>x. UniformQuantizedType flags width x zero_point smin smax) (legal_scale sc)"

fun legal_scales :: "double list \<Rightarrow> rat list option" where
  "legal_scales [] = Some []"
| "legal_scales (x # xs) =
     (case legal_scale x of
        None \<Rightarrow> None
      | Some y \<Rightarrow> map_option ((#) y) (legal_scales xs))"

definition getCheckedPerAxis ::
  "nat \<Rightarrow> nat \<Rightarrow> double list \<Rightarrow> int list \<Rightarrow> nat \<Rightarrow> int \<Rightarrow> int \<Rightarrow> QType option" where
  "getCheckedPerAxis flags width scs zero_points qdim smin smax =
     map_option (\<lambda>xs. UniformQuantizedPerAxisType flags width xs zero_points qdim smin smax)
       (legal_scales scs)"

subsection \<open>The bias adjustment\<close>

text \<open>\<^verbatim>\<open>getDefiningOp<arith::ConstantOp>()\<close>: the constant that defines the value, if one
  does.\<close>

definition getDefiningConstantOp :: "'p FuncOp \<Rightarrow> Value \<Rightarrow> Operation option" where
  "getDefiningConstantOp f v =
     (case getDefiningOp v of
        None \<Rightarrow> None
      | Some op \<Rightarrow> (case kind (ops f ! op) of ConstantOp attr \<Rightarrow> Some op | _ \<Rightarrow> None))"

text \<open>\<^verbatim>\<open>DuplicateConstantOpIfNeeded\<close>: the clone is put behind the constant by a builder
  of its own.\<close>

definition DuplicateConstantOpIfNeeded ::
  "Operation \<Rightarrow> Operation \<Rightarrow> nat \<Rightarrow> 'p Driver \<Rightarrow> Operation \<times> 'p Driver" where
  "DuplicateConstantOpIfNeeded op target_op operand_index d =
     (if hasOneUse (fn d) (OpResult op 0) then (op, d)
      else (let (new_op, f1) = create_op (Suc (index_of op (body (fn d)))) (ops (fn d) ! op) (fn d);
                d1 = d\<lparr>fn := setOperand target_op operand_index (OpResult new_op 0) f1\<rparr>;
                d2 = InitializeOperandState target_op operand_index (OpResult new_op 0)
                       (getType (fn d1) (OpResult new_op 0)) d1;
                d3 = InitializeResultState new_op 0 (OpResult new_op 0)
                       (getType (fn d2) (OpResult new_op 0)) d2
            in (new_op, d3)))"

text \<open>
  \<^verbatim>\<open>ShouldCheckBiasScale\<close>. \<open>GetAffineOperandIndex\<close> stands for the interface
  \<^verbatim>\<open>AffineQuantizedOpInterface\<close>, which is not among the sources: it gives the index of
  the affine (filter) operand of an operation that has the interface. The result is
  \<open>None\<close> for \<^verbatim>\<open>false\<close> and the pair of \<^verbatim>\<open>input_index\<close> and \<^verbatim>\<open>filter_index\<close> for \<^verbatim>\<open>true\<close>.
\<close>

definition storage_widths_ok :: "QType option \<Rightarrow> QType option \<Rightarrow> QType option \<Rightarrow> error + bool" where
  "storage_widths_ok input_params filter_params ps =
     (case (input_params, filter_params, ps) of
        (Some p_input, Some p_filter, Some p) \<Rightarrow>
          Inr (getStorageTypeIntegralWidth p_input = 8 \<and> getStorageTypeIntegralWidth p_filter = 8 \<and>
               getStorageTypeIntegralWidth p = 32)
      | _ \<Rightarrow> Inl NullType)"

definition ShouldCheckBiasScale ::
  "(Operation \<Rightarrow> nat option) \<Rightarrow> Operation \<Rightarrow> nat \<Rightarrow> nat list \<Rightarrow> QType option \<Rightarrow> QType Driver \<Rightarrow>
   error + (nat \<times> nat) option" where
  "ShouldCheckBiasScale GetAffineOperandIndex op bias_index input_indices ps d =
     (case (GetAffineOperandIndex op,
            getDefiningConstantOp (fn d) (getOperand (fn d) op bias_index)) of
        (Some filter_index, Some bias_op) \<Rightarrow>
          if length input_indices \<noteq> 2 then Inr None
          else (case kind (ops (fn d) ! bias_op) of
                  ConstantOp (DenseFPElementsAttr bias_values) \<Rightarrow>
                    (case getDefiningConstantOp (fn d) (getOperand (fn d) op filter_index) of
                       None \<Rightarrow> Inr None
                     | Some filter_op \<Rightarrow>
                         (let input_index =
                                (if filter_index = input_indices ! 0 then Some (input_indices ! 1)
                                 else if filter_index = input_indices ! 1 then Some (input_indices ! 0)
                                 else None)
                          in case input_index of
                               None \<Rightarrow> Inr None
                             | Some ii \<Rightarrow>
                                 (case storage_widths_ok (params (GetOperandQuantState d op ii))
                                         (params (GetOperandQuantState d op filter_index)) ps of
                                    Inl e \<Rightarrow> Inl e
                                  | Inr ok \<Rightarrow> Inr (if ok then Some (ii, filter_index) else None))))
                | _ \<Rightarrow> Inr None)
      | _ \<Rightarrow> Inr None)"

text \<open>The loop of the per-tensor branch: the largest absolute value of the bias.\<close>

definition bias_half_range :: "APFloat list \<Rightarrow> double" where
  "bias_half_range bias_values =
     fold (\<lambda>bias r. if dless r (abs_double bias) then abs_double bias else r) bias_values (Fin 0)"

text \<open>
  The loop of the per-axis branch, from index \<open>i\<close>, over the scales \<open>scs\<close> of the proposed
  type: the new scales of the bias, the new scales of the filter, and
  \<^verbatim>\<open>needs_adjustment\<close>. (An element of \<^verbatim>\<open>new_bias_scales\<close> is read before it is written, so
  what is read is the scale of the proposed type.)
\<close>

fun adjust_scales ::
  "APFloat list \<Rightarrow> rat \<Rightarrow> rat list \<Rightarrow> nat \<Rightarrow> nat \<Rightarrow> double list \<Rightarrow> double list \<Rightarrow> bool \<Rightarrow>
   error + (double list \<times> double list \<times> bool)" where
  "adjust_scales bias_values input_scale scs 0 i new_bias_scales new_filter_scales needs_adjustment =
     Inr (new_bias_scales, new_filter_scales, needs_adjustment)"
| "adjust_scales bias_values input_scale scs (Suc n) i new_bias_scales new_filter_scales needs_adjustment =
     (if length bias_values \<le> i \<or> length scs \<le> i then Inl IndexOutOfRange
      else (let abs_bias = abs_double (bias_values ! i)
            in if dgreater (ddiv abs_bias (scs ! i)) (Fin (of_int kBiasMax))
               then (if length new_filter_scales \<le> i then Inl IndexOutOfRange
                     else (let b = ddiv abs_bias (of_int kBiasMax)
                           in adjust_scales bias_values input_scale scs n (Suc i)
                                (new_bias_scales[i := b])
                                (new_filter_scales[i := ddiv b input_scale])
                                True))
               else adjust_scales bias_values input_scale scs n (Suc i) new_bias_scales
                      new_filter_scales needs_adjustment))"

text \<open>
  \<^verbatim>\<open>SetBiasParamsWithAdjustments\<close>. The branch for a null \<^verbatim>\<open>filter_op\<close> is not there:
  \<^verbatim>\<open>DuplicateConstantOpIfNeeded\<close> gives the constant or its clone.
\<close>

definition SetBiasParamsWithAdjustments ::
  "(Operation \<Rightarrow> nat option) \<Rightarrow> Operation \<Rightarrow> nat \<Rightarrow> nat list \<Rightarrow> QType option \<Rightarrow> QType Driver \<Rightarrow>
   error + bool \<times> QType Driver" where
  "SetBiasParamsWithAdjustments GetAffineOperandIndex op bias_index input_indices ps d =
     (case ShouldCheckBiasScale GetAffineOperandIndex op bias_index input_indices ps d of
        Inl e \<Rightarrow> Inl e
      | Inr None \<Rightarrow> Inr (SetOperandParams op bias_index ps False d)
      | Inr (Some (input_index, filter_index)) \<Rightarrow>
          (let input_state = GetOperandQuantState d op input_index;
               filter_state = GetOperandQuantState d op filter_index
           in case (getDefiningConstantOp (fn d) (getOperand (fn d) op bias_index),
                    getDefiningConstantOp (fn d) (getOperand (fn d) op filter_index),
                    params input_state) of
                (Some bias_op, Some filter_cst, Some (UniformQuantizedType ifl iw input_scale izp imn imx)) \<Rightarrow>
                  (case kind (ops (fn d) ! bias_op) of
                     ConstantOp (DenseFPElementsAttr bias_values) \<Rightarrow>
                       (case ps of
                          Some (UniformQuantizedType fl w sc zp smin smax) \<Rightarrow>
                            if dless (ddiv (bias_half_range bias_values) sc) (Fin (of_int kBiasMax))
                            then Inr (SetOperandParams op bias_index ps False d)
                            else (let new_bias_scale = ddiv (bias_half_range bias_values) (of_int kBiasMax);
                                      (c1, d1) = SetOperandParams op bias_index
                                                   (getChecked fl w new_bias_scale 0 smin smax) False d;
                                      (filter_op, d2) = DuplicateConstantOpIfNeeded filter_cst op filter_index d1
                                  in case params filter_state of
                                       Some (UniformQuantizedType ffl fw fsc fzp fmn fmx) \<Rightarrow>
                                         (let (c2, d3) =
                                                SetOperandParams op filter_index
                                                  (getChecked ffl fw (ddiv new_bias_scale input_scale)
                                                     0 fmn fmx)
                                                  True d2
                                          in Inr (c1 \<or> c2, d3))
                                     | _ \<Rightarrow> Inl CastFailed)
                        | Some (UniformQuantizedPerAxisType fl w scs zps qdim smin smax) \<Rightarrow>
                            (case params filter_state of
                               Some (UniformQuantizedPerAxisType ffl fw fscs fzps fqdim fmn fmx) \<Rightarrow>
                                 (case adjust_scales bias_values input_scale scs (length scs) 0
                                         (map Fin scs) (map Fin fscs) False of
                                    Inl e \<Rightarrow> Inl e
                                  | Inr (new_bias_scales, new_filter_scales, needs_adjustment) \<Rightarrow>
                                      if \<not> needs_adjustment
                                      then Inr (SetOperandParams op bias_index ps False d)
                                      else (let (c1, d1) =
                                                  SetOperandParams op bias_index
                                                    (getCheckedPerAxis fl w new_bias_scales zps qdim smin smax)
                                                    False d;
                                                (filter_op, d2) =
                                                  DuplicateConstantOpIfNeeded filter_cst op filter_index d1;
                                                (c2, d3) =
                                                  SetOperandParams op filter_index
                                                    (getCheckedPerAxis ffl fw new_filter_scales fzps fqdim
                                                       fmn fmx)
                                                    True d2
                                            in Inr (c1 \<or> c2, d3)))
                             | _ \<Rightarrow> Inl CastFailed)
                        | None \<Rightarrow> Inl NullType)
                   | _ \<Rightarrow> Inl CastFailed)
              | (Some bias_op, Some filter_cst, Some other_type) \<Rightarrow> Inl CastFailed
              | _ \<Rightarrow> Inl NullType))"

text \<open>
  The filter operand of the bias adjustment is an operand that a float constant defines.
  \<open>created_from_type\<close>: the operand has a state, and the \<open>immutable\<close> flag of the state
  is the one that the creation of a state computes from the type of the value that the
  operand reads (claim C1); the set-up gives such a state to every operand that no
  dequantize marker defines. \<open>float_filter\<close>: the affine operand of the operation, if it
  has one, reads a value whose type is not quantized, its state was created from that
  type, and the result of the next operation to be created, the clone of
  \<^verbatim>\<open>DuplicateConstantOpIfNeeded\<close>, has no state yet.
\<close>

definition created_from_type :: "'p Driver \<Rightarrow> Operation \<Rightarrow> nat \<Rightarrow> bool" where
  "created_from_type d op index =
     (case operand_states d (op, index) of
        None \<Rightarrow> False
      | Some s \<Rightarrow> s < length (states d) \<and>
                 immutable (states d ! s) =
                   (getQuantizedElementType (getType (fn d) (getOperand (fn d) op index)) \<noteq> None))"

definition float_filter :: "(Operation \<Rightarrow> nat option) \<Rightarrow> 'p Driver \<Rightarrow> Operation \<Rightarrow> bool" where
  "float_filter GetAffineOperandIndex d op =
     (case GetAffineOperandIndex op of
        None \<Rightarrow> True
      | Some filter_index \<Rightarrow>
          getQuantizedElementType (getType (fn d) (getOperand (fn d) op filter_index)) = None \<and>
          created_from_type d op filter_index \<and>
          value_to_state d (OpResult (length (ops (fn d))) 0) = None)"

text \<open>The vector of states \<open>ys\<close> has every state of \<open>xs\<close> that is immutable and holds
  parameters, as it is in \<open>xs\<close>.\<close>

definition kept :: "'p QuantState list \<Rightarrow> 'p QuantState list \<Rightarrow> bool" where
  "kept xs ys =
     (length xs \<le> length ys \<and>
      (\<forall>j<length xs. immutable (xs ! j) \<and> params (xs ! j) \<noteq> None \<longrightarrow> ys ! j = xs ! j))"

subsection \<open>A small function\<close>

text \<open>
  Argument 0 is a quantized tensor (parameters 1) that operation 0, a dequantize marker,
  converts; argument 1 is a float tensor. Operation 1 has a same-scale requirement, the
  operands \<open>(dequantized argument 0, argument 1)\<close> and two results. Operation 2 reads
  result 0 of operation 1 through both of its operands. Quantization parameters are
  natural numbers here.
\<close>

definition example_fn :: "nat FuncOp" where
  "example_fn =
     created
       [\<lparr>kind = DequantizeCastOp, operands = [BlockArgument 0],
          result_types = [ShapedType 1 FloatType], volatile = False\<rparr>,
        \<lparr>kind = OtherOp, operands = [OpResult 0 0, BlockArgument 1],
          result_types = [ShapedType 1 FloatType, ShapedType 1 FloatType], volatile = False\<rparr>,
        \<lparr>kind = OtherOp, operands = [OpResult 1 0, OpResult 1 0],
          result_types = [ShapedType 1 FloatType], volatile = False\<rparr>]
       [ShapedType 1 (QuantizedType 1), ShapedType 1 FloatType]"

definition example_driver :: "nat Driver" where
  "example_driver =
     SetupAllStates (\<lambda>op. op \<noteq> 0)
       (new_driver example_fn
          (\<lambda>op. \<lparr>biases_params = Map.empty, coeff_op_quant_dim = Map.empty\<rparr>)
          (\<lambda>op. \<lparr>has_same_scale_requirement = (op = 1), has_fixed_output_range = False\<rparr>))"

text \<open>The same driver after result 0 of operation 1 has been given the parameters 1.\<close>

definition settled_driver :: "nat Driver" where
  "settled_driver = snd (SetResultParams 1 0 (Some 1) example_driver)"

text \<open>The initializations of the set-up for the positions that read result 0 of
  operation 1 of \<open>example_fn\<close>: the result itself and both operands of operation 2.\<close>

definition example_calls :: "(position \<times> Value \<times> nat Type) list" where
  "example_calls =
     [(ResultPos (1, 0), OpResult 1 0, ShapedType 1 FloatType),
      (OperandPos (2, 0), OpResult 1 0, ShapedType 1 FloatType),
      (OperandPos (2, 1), OpResult 1 0, ShapedType 1 FloatType)]"

definition fresh_driver :: "nat Driver" where
  "fresh_driver =
     new_driver example_fn
       (\<lambda>op. \<lparr>biases_params = Map.empty, coeff_op_quant_dim = Map.empty\<rparr>)
       (\<lambda>op. \<lparr>has_same_scale_requirement = (op = 1), has_fixed_output_range = False\<rparr>)"

subsection \<open>Functions with a constant\<close>

text \<open>
  Operation 0 is a float constant with the given content. Operation 1 is a
  convolution-like operation with the operands (input, filter, bias); its specification
  marks operand 2 as the bias and operand 1 as a coefficient with per-channel axis 0. In
  \<open>conv_fn\<close> the constant is both its filter and its bias. In \<open>two_conv_fn\<close> a second
  operation of the kind, without bias, also has the constant as its filter.
\<close>

definition conv_spec :: "Operation \<Rightarrow> OpQuantSpec" where
  "conv_spec op =
     (if op = 1 then \<lparr>biases_params = [2 \<mapsto> [0, 1]], coeff_op_quant_dim = [1 \<mapsto> 0]\<rparr>
      else \<lparr>biases_params = Map.empty, coeff_op_quant_dim = [1 \<mapsto> 0]\<rparr>)"

definition no_scale_spec :: "Operation \<Rightarrow> OpQuantScaleSpec" where
  "no_scale_spec op = \<lparr>has_same_scale_requirement = False, has_fixed_output_range = False\<rparr>"

definition conv_fn :: "APFloat list \<Rightarrow> nat FuncOp" where
  "conv_fn content =
     created
       [\<lparr>kind = ConstantOp (DenseFPElementsAttr content), operands = [],
          result_types = [ShapedType 1 FloatType], volatile = False\<rparr>,
        \<lparr>kind = OtherOp, operands = [BlockArgument 0, OpResult 0 0, OpResult 0 0],
          result_types = [ShapedType 1 FloatType], volatile = False\<rparr>]
       [ShapedType 1 FloatType]"

definition two_conv_fn :: "nat FuncOp" where
  "two_conv_fn =
     created
       [\<lparr>kind = ConstantOp (DenseFPElementsAttr [Finite 1, Finite 2]), operands = [],
          result_types = [ShapedType 1 FloatType], volatile = False\<rparr>,
        \<lparr>kind = OtherOp, operands = [BlockArgument 0, OpResult 0 0, OpResult 0 0],
          result_types = [ShapedType 1 FloatType], volatile = False\<rparr>,
        \<lparr>kind = OtherOp, operands = [BlockArgument 0, OpResult 0 0],
          result_types = [ShapedType 1 FloatType], volatile = False\<rparr>]
       [ShapedType 1 FloatType]"

definition conv_driver :: "APFloat list \<Rightarrow> nat Driver" where
  "conv_driver content = new_driver (conv_fn content) conv_spec no_scale_spec"

definition two_conv_driver :: "nat Driver" where
  "two_conv_driver = new_driver two_conv_fn conv_spec no_scale_spec"

subsection \<open>A function with a bias\<close>

text \<open>
  Argument 0 is a quantized tensor with the 8-bit parameters \<open>input_type\<close>, which
  operation 0, a dequantize marker, converts. Operation 1 is the filter constant and
  operation 2 the bias constant, with the given content. Operation 3 is a
  convolution-like operation with the operands (input, filter, bias); operand 2 is its
  bias and operand 1 its affine operand. \<open>bias_setup\<close> is the driver after
  \<^verbatim>\<open>Initialize\<close>; in \<open>bias_driver\<close> the filter constant has then been given the 8-bit
  parameters \<open>filter_type\<close>, as the inference of the parameters of a weight gives them
  with \<^verbatim>\<open>SetResultParams\<close>. \<open>bias_proposal\<close> is a 32-bit proposal for the bias, with
  the scale of the input times the scale of the filter.
\<close>

definition input_type :: QType where
  "input_type = UniformQuantizedType 1 8 1 0 (-128) 127"

definition filter_type :: QType where
  "filter_type = UniformQuantizedType 0 8 (1073741761 / 68719476736) 128 0 255"

definition bias_proposal :: QType where
  "bias_proposal = UniformQuantizedType 1 32 (1073741761 / 68719476736) 0 (-2147483648) 2147483647"

definition bias_fn :: "APFloat list \<Rightarrow> QType FuncOp" where
  "bias_fn bias_values =
     created
       [\<lparr>kind = DequantizeCastOp, operands = [BlockArgument 0],
          result_types = [ShapedType 1 FloatType], volatile = False\<rparr>,
        \<lparr>kind = ConstantOp (DenseFPElementsAttr [Finite 1]), operands = [],
          result_types = [ShapedType 1 FloatType], volatile = False\<rparr>,
        \<lparr>kind = ConstantOp (DenseFPElementsAttr bias_values), operands = [],
          result_types = [ShapedType 1 FloatType], volatile = False\<rparr>,
        \<lparr>kind = OtherOp, operands = [OpResult 0 0, OpResult 1 0, OpResult 2 0],
          result_types = [ShapedType 1 FloatType], volatile = False\<rparr>]
       [ShapedType 1 (QuantizedType input_type)]"

definition bias_spec :: "Operation \<Rightarrow> OpQuantSpec" where
  "bias_spec op =
     (if op = 3 then \<lparr>biases_params = [2 \<mapsto> [0, 1]], coeff_op_quant_dim = Map.empty\<rparr>
      else \<lparr>biases_params = Map.empty, coeff_op_quant_dim = Map.empty\<rparr>)"

definition affine_index :: "Operation \<Rightarrow> nat option" where
  "affine_index op = (if op = 3 then Some 1 else None)"

definition bias_setup :: "APFloat list \<Rightarrow> QType Driver" where
  "bias_setup bias_values =
     (case Initialize (\<lambda>op. op \<noteq> 0) (new_driver (bias_fn bias_values) bias_spec no_scale_spec) of
        Inl e \<Rightarrow> new_driver (bias_fn bias_values) bias_spec no_scale_spec
      | Inr d \<Rightarrow> d)"

definition bias_driver :: "APFloat list \<Rightarrow> QType Driver" where
  "bias_driver bias_values = snd (SetResultParams 1 0 (Some filter_type) (bias_setup bias_values))"

section \<open>Properties\<close>

subsection \<open>Creation of a state\<close>

text \<open>
  Claim C1. When a state is created for a value (the value has no state yet), by
  \<^verbatim>\<open>InitializeStateForValue\<close> for an operand or a result or by \<^verbatim>\<open>InitializeArgState\<close>,
  its parameters are those of the type of the value and its \<open>immutable\<close> flag is true if
  and only if that type encodes quantization parameters. For a value that has a state, no
  state is created.
\<close>

theorem immutable_iff_type_has_params:
  "states (InitializeStateForValue op index v vtype as_result d) =
     (if value_to_state d v = None
      then states d @ [\<lparr>params = getQuantizedElementType vtype,
                         immutable = (getQuantizedElementType vtype \<noteq> None)\<rparr>]
      else states d)
   \<and> states (InitializeArgState arg v vtype d) =
     (if value_to_state d v = None
      then states d @ [\<lparr>params = getQuantizedElementType vtype,
                         immutable = (getQuantizedElementType vtype \<noteq> None)\<rparr>]
      else states d)"
  by (auto simp: InitializeStateForValue_def InitializeArgState_def HasQuantParams_def Let_def
      split: option.splits)

subsection \<open>The assignment contract\<close>

lemma states_AddUserToList [simp]: "states (AddUserToList op i d) = states d"
  by (simp add: AddUserToList_def)

lemma states_AddOperandToList [simp]: "states (AddOperandToList op i d) = states d"
  by (simp add: AddOperandToList_def split: option.splits)

lemma SetResultParams_nonempty:
  "\<not> IsEmpty (GetResultQuantState d op i) \<Longrightarrow> states (snd (SetResultParams op i ps d)) = states d"
  by (simp add: SetResultParams_def Let_def)

lemma SetOperandParams_nonempty:
  "\<not> IsEmpty (GetOperandQuantState d op i) \<Longrightarrow>
   states (snd (SetOperandParams op i ps False d)) = states d"
  by (simp add: SetOperandParams_def Let_def split: option.splits)

lemma map_immutable_update:
  "map immutable (xs[s := (xs ! s)\<lparr>params := ps\<rparr>]) = map immutable xs"
proof (cases "s < length xs")
  case True
  then show ?thesis by (simp add: map_update list_update_same_conv)
next
  case False
  then show ?thesis by (simp add: list_update_beyond)
qed

lemma SetResultParams_immutable:
  "map immutable (states (snd (SetResultParams op i ps d))) = map immutable (states d)"
  by (simp add: SetResultParams_def Let_def GetResultQuantState_def map_immutable_update)

lemma SetOperandParams_immutable:
  "map immutable (states (snd (SetOperandParams op i ps ov d))) = map immutable (states d)"
  by (simp add: SetOperandParams_def Let_def GetOperandQuantState_def map_immutable_update
      split: option.splits)

lemma params_update_same: "params r = ps \<Longrightarrow> r\<lparr>params := ps\<rparr> = r"
  by (cases r) simp

lemma SetResultParams_empty:
  "IsEmpty (GetResultQuantState d op i) \<Longrightarrow>
   states (snd (SetResultParams op i ps d)) =
     (states d)[state_index (result_states d) (op, i) := (GetResultQuantState d op i)\<lparr>params := ps\<rparr>]"
  by (auto simp: SetResultParams_def Let_def GetResultQuantState_def IsEmpty_def params_update_same)

lemma SetOperandParams_store:
  "IsEmpty (GetOperandQuantState d op i) \<or> ov \<Longrightarrow>
   states (snd (SetOperandParams op i ps ov d)) =
     (states d)[state_index (operand_states d) (op, i) := (GetOperandQuantState d op i)\<lparr>params := ps\<rparr>]"
  by (auto simp: SetOperandParams_def Let_def GetOperandQuantState_def IsEmpty_def params_update_same)

lemma kept_refl: "kept xs xs" by (simp add: kept_def)

lemma kept_trans: "kept xs ys \<Longrightarrow> kept ys zs \<Longrightarrow> kept xs zs"
  by (auto simp: kept_def)

lemma kept_append: "kept xs (xs @ ys)" by (simp add: kept_def nth_append)

lemma kept_update:
  assumes "s < length xs \<longrightarrow> \<not> (immutable (xs ! s) \<and> params (xs ! s) \<noteq> None)"
  shows "kept xs (xs[s := x])"
proof -
  have "xs[s := x] ! j = xs ! j"
    if "j < length xs" "immutable (xs ! j) \<and> params (xs ! j) \<noteq> None" for j
  proof -
    have "j \<noteq> s" using that assms by auto
    then show ?thesis by simp
  qed
  then show ?thesis by (simp add: kept_def)
qed

lemma SetOperandParams_states_cases:
  "states (snd (SetOperandParams op i ps ov d)) = states d \<or>
   ((ov \<or> IsEmpty (GetOperandQuantState d op i)) \<and>
    states (snd (SetOperandParams op i ps ov d)) =
      (states d)[state_index (operand_states d) (op, i) := (GetOperandQuantState d op i)\<lparr>params := ps\<rparr>])"
  by (auto simp: SetOperandParams_def Let_def GetOperandQuantState_def IsEmpty_def
      split: option.splits)

lemma SetOperandParams_frame:
  "fn (snd (SetOperandParams op i ps ov d)) = fn d"
  "operand_states (snd (SetOperandParams op i ps ov d)) = operand_states d"
  "result_states (snd (SetOperandParams op i ps ov d)) = result_states d"
  "arg_states (snd (SetOperandParams op i ps ov d)) = arg_states d"
  "value_to_state (snd (SetOperandParams op i ps ov d)) = value_to_state d"
  "length (states (snd (SetOperandParams op i ps ov d))) = length (states d)"
  by (auto simp: SetOperandParams_def Let_def AddOperandToList_def split: option.splits)

lemma SetOperandParams_kept:
  "kept (states d) (states (snd (SetOperandParams op i ps False d)))"
  using SetOperandParams_states_cases[of op i ps False d]
  by (auto simp: kept_refl GetOperandQuantState_def IsEmpty_def intro!: kept_update)

lemma SetOperandParams_override_kept:
  assumes "state_index (operand_states d) (op, i) < length (states d) \<longrightarrow>
           \<not> immutable (states d ! state_index (operand_states d) (op, i))"
  shows "kept (states d) (states (snd (SetOperandParams op i ps True d)))"
  using SetOperandParams_states_cases[of op i ps True d] assms
  by (auto simp: kept_refl intro!: kept_update)

lemma DuplicateConstantOpIfNeeded_cases:
  assumes "value_to_state d (OpResult (length (ops (fn d))) 0) = None"
  shows "(hasOneUse (fn d) (OpResult c 0) \<and> snd (DuplicateConstantOpIfNeeded c op i d) = d) \<or>
         (\<exists>x. states (snd (DuplicateConstantOpIfNeeded c op i d)) = states d @ [x] \<and>
              operand_states (snd (DuplicateConstantOpIfNeeded c op i d)) (op, i) = Some (length (states d)))"
  using assms
  by (auto simp: DuplicateConstantOpIfNeeded_def Let_def create_op_def InitializeOperandState_def
      InitializeResultState_def InitializeStateForValue_def split: prod.splits)

lemma ShouldCheckBiasScale_Some:
  assumes "ShouldCheckBiasScale aff op bi idxs ps d = Inr (Some (ii, fi))"
  shows "aff op = Some fi"
  using assms
  by (auto simp: ShouldCheckBiasScale_def Let_def
      split: option.splits if_splits OpKind.splits Attr.splits sum.splits)

lemma SetBiasParamsWithAdjustments_cases:
  assumes "SetBiasParamsWithAdjustments aff op bi idxs ps d = Inr (c, d')"
  shows "d' = snd (SetOperandParams op bi ps False d) \<or>
         (\<exists>fi filter_cst x y. aff op = Some fi \<and>
            d' = snd (SetOperandParams op fi x True
                   (snd (DuplicateConstantOpIfNeeded filter_cst op fi
                      (snd (SetOperandParams op bi y False d))))))"
proof (cases "ShouldCheckBiasScale aff op bi idxs ps d")
  case (Inl e)
  then show ?thesis using assms by (simp add: SetBiasParamsWithAdjustments_def)
next
  case (Inr r)
  show ?thesis
  proof (cases r)
    case None
    then show ?thesis using assms Inr by (auto simp: SetBiasParamsWithAdjustments_def)
  next
    case (Some p)
    obtain ii fi where p: "p = (ii, fi)" by (cases p)
    have a: "aff op = Some fi" using Inr Some p by (auto intro: ShouldCheckBiasScale_Some)
    show ?thesis
      using assms Inr Some p a
      by (auto simp: SetBiasParamsWithAdjustments_def Let_def case_prod_beta
          split: option.splits QType.splits OpKind.splits Attr.splits if_splits sum.splits)
  qed
qed


lemma kept_update_beyond: "kept xs ys \<Longrightarrow> length xs \<le> s \<Longrightarrow> kept xs (ys[s := x])"
  by (auto simp: kept_def)

lemma bias_adjustment_kept:
  assumes ff: "float_filter aff d op"
    and r: "SetBiasParamsWithAdjustments aff op bi idxs ps d = Inr (c, d')"
  shows "kept (states d) (states d')"
proof -
  from SetBiasParamsWithAdjustments_cases[OF r]
  consider (plain) "d' = snd (SetOperandParams op bi ps False d)"
    | (adjusted) fi filter_cst x y where "aff op = Some fi"
        "d' = snd (SetOperandParams op fi x True
                 (snd (DuplicateConstantOpIfNeeded filter_cst op fi
                    (snd (SetOperandParams op bi y False d)))))"
    by blast
  then show ?thesis
  proof cases
    case plain
    then show ?thesis by (simp add: SetOperandParams_kept)
  next
    case adjusted
    let ?d1 = "snd (SetOperandParams op bi y False d)"
    let ?d2 = "snd (DuplicateConstantOpIfNeeded filter_cst op fi ?d1)"
    from ff adjusted(1) obtain s where s: "operand_states d (op, fi) = Some s" "s < length (states d)"
      "\<not> immutable (states d ! s)"
      and fresh: "value_to_state d (OpResult (length (ops (fn d))) 0) = None"
      by (auto simp: float_filter_def created_from_type_def split: option.splits)
    have k1: "kept (states d) (states ?d1)" by (rule SetOperandParams_kept)
    have len1: "length (states ?d1) = length (states d)" by (rule SetOperandParams_frame)
    have fresh1: "value_to_state ?d1 (OpResult (length (ops (fn ?d1))) 0) = None"
      using fresh by (simp add: SetOperandParams_frame)
    have imm1: "immutable (states ?d1 ! s) = immutable (states d ! s)"
    proof -
      have "map immutable (states ?d1) ! s = map immutable (states d) ! s"
        by (simp only: SetOperandParams_immutable)
      then show ?thesis using s(2) len1 by simp
    qed
    from DuplicateConstantOpIfNeeded_cases[OF fresh1, of filter_cst op fi]
    consider (same) "?d2 = ?d1"
      | (clone) x' where "states ?d2 = states ?d1 @ [x']"
          "operand_states ?d2 (op, fi) = Some (length (states ?d1))"
      by blast
    then show ?thesis
    proof cases
      case same
      have "state_index (operand_states ?d1) (op, fi) = s"
        using s(1) by (simp add: state_index_def SetOperandParams_frame)
      then have "kept (states ?d1) (states (snd (SetOperandParams op fi x True ?d1)))"
        using imm1 s(3) by (intro SetOperandParams_override_kept) simp
      then show ?thesis using k1 adjusted(2) same by (auto intro: kept_trans)
    next
      case clone
      have k2: "kept (states d) (states ?d2)"
        using k1 clone(1) by (auto intro: kept_trans kept_append)
      have idx: "state_index (operand_states ?d2) (op, fi) = length (states d)"
        using clone(2) len1 by (simp add: state_index_def)
      from SetOperandParams_states_cases[of op fi x True ?d2]
      show ?thesis
        unfolding adjusted(2) idx using k2 by (auto intro: kept_update_beyond)
    qed
  qed
qed

text \<open>
  Claim C2, as amended. \<^verbatim>\<open>SetResultParams\<close>, and \<^verbatim>\<open>SetOperandParams\<close> called without
  \<open>override\<close>, leave the whole vector of states as it is when the state of the position is
  non-empty (as an immutable state is, which holds the parameters of its type from its
  creation); on an empty state they store the proposal. No assignment changes the
  \<open>immutable\<close> flag of any state. \<^verbatim>\<open>SetBiasParamsWithAdjustments\<close>, whose adjustment calls
  \<^verbatim>\<open>SetOperandParams\<close> with \<open>override\<close> for the filter operand, leaves every immutable
  state that holds parameters as it is, the filter being a float constant. But
  \<^verbatim>\<open>SetOperandParams\<close> called with \<open>override\<close> on a mutable state stores the proposal over
  the parameters that are there: the parameters of a mutable state can be stored again
  after they have been settled.
\<close>

theorem immutable_params_never_change:
  "(\<not> IsEmpty (GetResultQuantState d op1 i1) \<longrightarrow>
      states (snd (SetResultParams op1 i1 ps d)) = states d) \<and>
   (\<not> IsEmpty (GetOperandQuantState d op2 i2) \<longrightarrow>
      states (snd (SetOperandParams op2 i2 ps False d)) = states d) \<and>
   map immutable (states (snd (SetResultParams op1 i1 ps d))) = map immutable (states d) \<and>
   map immutable (states (snd (SetOperandParams op2 i2 ps ov d))) = map immutable (states d) \<and>
   (IsEmpty (GetResultQuantState d op3 i3) \<longrightarrow>
      states (snd (SetResultParams op3 i3 ps d)) =
        (states d)[state_index (result_states d) (op3, i3) :=
                     (GetResultQuantState d op3 i3)\<lparr>params := ps\<rparr>]) \<and>
   (IsEmpty (GetOperandQuantState d op4 i4) \<longrightarrow>
      states (snd (SetOperandParams op4 i4 ps False d)) =
        (states d)[state_index (operand_states d) (op4, i4) :=
                     (GetOperandQuantState d op4 i4)\<lparr>params := ps\<rparr>]) \<and>
   (float_filter aff b op \<and>
    SetBiasParamsWithAdjustments aff op bias_index input_indices qs b = Inr (changed, b') \<longrightarrow>
      length (states b) \<le> length (states b') \<and>
      (\<forall>j<length (states b). immutable (states b ! j) \<and> \<not> IsEmpty (states b ! j) \<longrightarrow>
         states b' ! j = states b ! j)) \<and>
   (\<not> immutable (GetOperandQuantState d op5 i5) \<longrightarrow>
      states (snd (SetOperandParams op5 i5 ps True d)) =
        (states d)[state_index (operand_states d) (op5, i5) :=
                     (GetOperandQuantState d op5 i5)\<lparr>params := ps\<rparr>])"
proof (intro conjI impI)
  show "map immutable (states (snd (SetResultParams op1 i1 ps d))) = map immutable (states d)"
    by (rule SetResultParams_immutable)
  show "map immutable (states (snd (SetOperandParams op2 i2 ps ov d))) = map immutable (states d)"
    by (rule SetOperandParams_immutable)
  assume a: "float_filter aff b op \<and>
    SetBiasParamsWithAdjustments aff op bias_index input_indices qs b = Inr (changed, b')"
  have k: "kept (states b) (states b')"
    using a by (auto intro: bias_adjustment_kept)
  show "length (states b) \<le> length (states b')" using k by (simp add: kept_def)
  show "\<forall>j<length (states b). immutable (states b ! j) \<and> \<not> IsEmpty (states b ! j) \<longrightarrow>
         states b' ! j = states b ! j"
    using k by (simp add: kept_def IsEmpty_def)
qed (simp_all add: SetResultParams_nonempty SetOperandParams_nonempty SetResultParams_empty
      SetOperandParams_store)

text \<open>
  Witness for claim C2: in \<open>settled_driver\<close>, result 0 of operation 1 and operand 0 of
  operation 2 have the non-empty state 2, result 0 of operation 2 and operand 1 of
  operation 1 have empty states, and operand 1 of operation 2 has a mutable state; the
  proposal is the parameters 2. In \<open>bias_driver\<close> the state 0, of the quantized input, is
  immutable and holds parameters; the adjustment for a bias of 16777216 leaves it as it
  is.
\<close>

theorem immutable_params_never_change_witness:
  "\<not> IsEmpty (GetResultQuantState settled_driver 1 0) \<and>
   \<not> IsEmpty (GetOperandQuantState settled_driver 2 0) \<and>
   IsEmpty (GetResultQuantState settled_driver 2 0) \<and>
   IsEmpty (GetOperandQuantState settled_driver 1 1) \<and>
   \<not> immutable (GetOperandQuantState settled_driver 2 1) \<and>
   float_filter affine_index (bias_driver [Finite 16777216]) 3 \<and>
   immutable (states (bias_driver [Finite 16777216]) ! 0) \<and>
   \<not> IsEmpty (states (bias_driver [Finite 16777216]) ! 0) \<and>
   states (snd (SetResultParams 1 0 (Some 2) settled_driver)) = states settled_driver \<and>
   states (snd (SetOperandParams 2 0 (Some 2) False settled_driver)) = states settled_driver \<and>
   states (snd (SetResultParams 2 0 (Some 2) settled_driver)) =
     (states settled_driver)[state_index (result_states settled_driver) (2, 0) :=
        (GetResultQuantState settled_driver 2 0)\<lparr>params := Some 2\<rparr>] \<and>
   states (snd (SetOperandParams 1 1 (Some 2) False settled_driver)) =
     (states settled_driver)[state_index (operand_states settled_driver) (1, 1) :=
        (GetOperandQuantState settled_driver 1 1)\<lparr>params := Some 2\<rparr>] \<and>
   states (snd (SetOperandParams 2 1 (Some 2) True settled_driver)) =
     (states settled_driver)[state_index (operand_states settled_driver) (2, 1) :=
        (GetOperandQuantState settled_driver 2 1)\<lparr>params := Some 2\<rparr>] \<and>
   (case SetBiasParamsWithAdjustments affine_index 3 2 [0, 1] (Some bias_proposal)
           (bias_driver [Finite 16777216]) of
      Inl e \<Rightarrow> False
    | Inr (changed, b') \<Rightarrow> states b' ! 0 = states (bias_driver [Finite 16777216]) ! 0)"
proof -
  let ?b = "bias_driver [Finite 16777216]"
  let ?r = "SetBiasParamsWithAdjustments affine_index 3 2 [0, 1] (Some bias_proposal) ?b"
  have h1: "\<not> IsEmpty (GetResultQuantState settled_driver 1 0)" by code_simp
  have h2: "\<not> IsEmpty (GetOperandQuantState settled_driver 2 0)" by code_simp
  have h3: "IsEmpty (GetResultQuantState settled_driver 2 0)" by code_simp
  have h4: "IsEmpty (GetOperandQuantState settled_driver 1 1)" by code_simp
  have h5: "\<not> immutable (GetOperandQuantState settled_driver 2 1)" by code_simp
  have h6: "float_filter affine_index ?b 3" by code_simp
  have h7: "immutable (states ?b ! 0)" by code_simp
  have h8: "\<not> IsEmpty (states ?b ! 0)" by code_simp
  have h9: "0 < length (states ?b)" by code_simp
  have "case ?r of Inl e \<Rightarrow> False | Inr p \<Rightarrow> True" by code_simp
  then obtain changed b' where r: "?r = Inr (changed, b')" by (cases ?r) auto
  note t = immutable_params_never_change
    [where d = settled_driver and ps = "Some 2" and ?op1.0 = 1 and ?i1.0 = 0 and ?op2.0 = 2
       and ?i2.0 = 0 and ov = False and ?op3.0 = 2 and ?i3.0 = 0 and ?op4.0 = 1 and ?i4.0 = 1
       and ?op5.0 = 2 and ?i5.0 = 1
       and aff = affine_index and b = ?b and op = 3 and bias_index = 2 and input_indices = "[0, 1]"
       and qs = "Some bias_proposal" and changed = changed and b' = b']
  have k: "states b' ! 0 = states ?b ! 0" using t h6 h7 h8 h9 r by blast
  have c: "case ?r of Inl e \<Rightarrow> False | Inr (changed, b') \<Rightarrow> states b' ! 0 = states ?b ! 0"
    unfolding r using k by simp
  show ?thesis using h1 h2 h3 h4 h5 h6 h7 h8 t c by blast
qed

text \<open>
  Counterexample for claim C2 as stated: operand 1 of operation 3 of \<open>bias_fn\<close>, the filter,
  has the mutable state 1. It is empty after the set-up, and is given the parameters
  \<open>filter_type\<close> in \<open>bias_driver\<close>. The adjustment for a bias of 16777216, whose quotient
  by the proposed scale exceeds \<open>kBiasMax\<close>, then stores other parameters in the same
  state: its parameters are stored twice.
\<close>

theorem bias_adjustment_overwrites_settled_filter:
  "operand_states (bias_setup [Finite 16777216]) (3, 1) = Some 1 \<and>
   IsEmpty (GetOperandQuantState (bias_setup [Finite 16777216]) 3 1) \<and>
   \<not> immutable (GetOperandQuantState (bias_setup [Finite 16777216]) 3 1) \<and>
   operand_states (bias_driver [Finite 16777216]) (3, 1) = Some 1 \<and>
   params (GetOperandQuantState (bias_driver [Finite 16777216]) 3 1) = Some filter_type \<and>
   (case SetBiasParamsWithAdjustments affine_index 3 2 [0, 1] (Some bias_proposal)
           (bias_driver [Finite 16777216]) of
      Inl e \<Rightarrow> False
    | Inr (changed, d) \<Rightarrow>
        operand_states d (3, 1) = Some 1 \<and>
        params (GetOperandQuantState d 3 1) =
          Some (UniformQuantizedType 0 8 (1073741825 / 68719476736) 0 0 255))"
  by code_simp

lemma add_user_to_rescale_none:
  "(\<forall>r \<in> set rs. rparams r \<noteq> ps) \<Longrightarrow> add_user_to_rescale ps u rs = None"
  by (induction rs) auto

lemma add_user_to_rescale_first:
  "k < length rs \<Longrightarrow> rparams (rs ! k) = ps \<Longrightarrow> (\<forall>j<k. rparams (rs ! j) \<noteq> ps) \<Longrightarrow>
   add_user_to_rescale ps u rs = Some (rs[k := (rs ! k)\<lparr>users := users (rs ! k) @ [u]\<rparr>])"
proof (induction rs arbitrary: k)
  case Nil
  then show ?case by simp
next
  case (Cons r rs)
  show ?case
  proof (cases k)
    case 0
    then show ?thesis using Cons.prems by simp
  next
    case (Suc n)
    have "rparams r \<noteq> ps" using Cons.prems(3) Suc by auto
    moreover have "add_user_to_rescale ps u rs = Some (rs[n := (rs ! n)\<lparr>users := users (rs ! n) @ [u]\<rparr>])"
      using Cons.prems Suc by (intro Cons.IH) auto
    ultimately show ?thesis using Suc by simp
  qed
qed

lemma add_user_to_rescale_targets:
  "add_user_to_rescale ps u rs = Some rs' \<Longrightarrow> map rparams rs' = map rparams rs"
  by (induction rs arbitrary: rs') (auto split: if_splits)

lemma add_user_to_rescale_none_iff:
  "(add_user_to_rescale ps u rs = None) = (\<forall>r \<in> set rs. rparams r \<noteq> ps)"
  by (induction rs) auto

lemma SetOperandParams_targets:
  assumes "distinct (map rparams (GetOperandRequantizeStates d op i))"
  shows "distinct (map rparams (GetOperandRequantizeStates (snd (SetOperandParams op i ps ov d)) op i))"
proof -
  let ?s = "state_index (operand_states d) (op, i)"
  let ?rs = "rescale_states d ?s"
  have d: "distinct (map rparams ?rs)" using assms by (simp add: GetOperandRequantizeStates_def)
  show ?thesis
  proof (cases "add_user_to_rescale ps (op, i) ?rs")
    case None
    then have "\<forall>r \<in> set ?rs. rparams r \<noteq> ps" by (simp add: add_user_to_rescale_none_iff)
    then have "ps \<notin> set (map rparams ?rs)" by auto
    then show ?thesis using d None
      by (auto simp: SetOperandParams_def Let_def GetOperandRequantizeStates_def AddOperandToList_def
          split: option.splits)
  next
    case (Some rs')
    then have "map rparams rs' = map rparams ?rs" by (rule add_user_to_rescale_targets)
    then show ?thesis using d Some
      by (auto simp: SetOperandParams_def Let_def GetOperandRequantizeStates_def AddOperandToList_def
          split: option.splits)
  qed
qed

text \<open>
  Claim C3, as amended. On a state that holds parameters \<open>p1\<close>, with a proposal different
  from them: \<^verbatim>\<open>SetResultParams\<close> returns "changed", leaves \<open>p1\<close> stored and appends
  exactly the entry (\<^verbatim>\<open>ON_INPUT\<close>, proposal, no users) to the pending requantizations of
  the state; \<^verbatim>\<open>SetOperandParams\<close> called without \<open>override\<close>, when no pending entry of the
  state has the proposal as its target, returns "changed", leaves \<open>p1\<close> stored and appends
  exactly the entry (\<^verbatim>\<open>ON_OUTPUT\<close>, proposal, the consumer \<open>(op, index)\<close>).
\<close>

theorem conflict_appends_requantize_state:
  "(params (GetResultQuantState d op i) = Some p1 \<and> ps \<noteq> Some p1 \<longrightarrow>
      SetResultParams op i ps d =
        (True, d\<lparr>rescale_states := (rescale_states d)
           (state_index (result_states d) (op, i) :=
              GetResultRequantizeStates d op i @ [\<lparr>pos = ON_INPUT, rparams = ps, users = []\<rparr>])\<rparr>)
      \<and> params (GetResultQuantState (snd (SetResultParams op i ps d)) op i) = Some p1) \<and>
   (params (GetOperandQuantState d op' i') = Some p1' \<and> ps' \<noteq> Some p1' \<and>
    (\<forall>r \<in> set (GetOperandRequantizeStates d op' i'). rparams r \<noteq> ps') \<longrightarrow>
      SetOperandParams op' i' ps' False d =
        (True, d\<lparr>rescale_states := (rescale_states d)
           (state_index (operand_states d) (op', i') :=
              GetOperandRequantizeStates d op' i' @
                [\<lparr>pos = ON_OUTPUT, rparams = ps', users = [(op', i')]\<rparr>])\<rparr>)
      \<and> params (GetOperandQuantState (snd (SetOperandParams op' i' ps' False d)) op' i') = Some p1')"
proof (intro conjI impI)
  assume a: "params (GetResultQuantState d op i) = Some p1 \<and> ps \<noteq> Some p1"
  then show r: "SetResultParams op i ps d =
        (True, d\<lparr>rescale_states := (rescale_states d)
           (state_index (result_states d) (op, i) :=
              GetResultRequantizeStates d op i @ [\<lparr>pos = ON_INPUT, rparams = ps, users = []\<rparr>])\<rparr>)"
    by (auto simp: SetResultParams_def Let_def IsEmpty_def GetResultRequantizeStates_def)
  show "params (GetResultQuantState (snd (SetResultParams op i ps d)) op i) = Some p1"
    unfolding r using a by (simp add: GetResultQuantState_def)
next
  assume a: "params (GetOperandQuantState d op' i') = Some p1' \<and> ps' \<noteq> Some p1' \<and>
    (\<forall>r \<in> set (GetOperandRequantizeStates d op' i'). rparams r \<noteq> ps')"
  then have n: "add_user_to_rescale ps' (op', i') (rescale_states d (state_index (operand_states d) (op', i'))) = None"
    by (simp add: add_user_to_rescale_none GetOperandRequantizeStates_def)
  show r: "SetOperandParams op' i' ps' False d =
        (True, d\<lparr>rescale_states := (rescale_states d)
           (state_index (operand_states d) (op', i') :=
              GetOperandRequantizeStates d op' i' @
                [\<lparr>pos = ON_OUTPUT, rparams = ps', users = [(op', i')]\<rparr>])\<rparr>)"
    using a n by (auto simp: SetOperandParams_def Let_def IsEmpty_def GetOperandRequantizeStates_def)
  show "params (GetOperandQuantState (snd (SetOperandParams op' i' ps' False d)) op' i') = Some p1'"
    unfolding r using a by (simp add: GetOperandQuantState_def)
qed

text \<open>
  Witness for claim C3: in \<open>settled_driver\<close> the state of result 0 of operation 1, which
  is also the state of operand 0 of operation 2, holds the parameters 1 and has no
  pending requantization; the proposal is the parameters 2.
\<close>

theorem conflict_appends_requantize_state_witness:
  "params (GetResultQuantState settled_driver 1 0) = Some 1 \<and>
   params (GetOperandQuantState settled_driver 2 0) = Some 1 \<and>
   GetOperandRequantizeStates settled_driver 2 0 = [] \<and>
   fst (SetResultParams 1 0 (Some 2) settled_driver) \<and>
   params (GetResultQuantState (snd (SetResultParams 1 0 (Some 2) settled_driver)) 1 0) = Some 1 \<and>
   fst (SetOperandParams 2 0 (Some 2) False settled_driver) \<and>
   params (GetOperandQuantState (snd (SetOperandParams 2 0 (Some 2) False settled_driver)) 2 0) = Some 1"
proof -
  have h1: "params (GetResultQuantState settled_driver 1 0) = Some 1" by code_simp
  have h2: "params (GetOperandQuantState settled_driver 2 0) = Some 1" by code_simp
  have e: "GetOperandRequantizeStates settled_driver 2 0 = []" by code_simp
  have h3: "\<forall>r \<in> set (GetOperandRequantizeStates settled_driver 2 0). rparams r \<noteq> Some 2"
    by (simp add: e)
  have h4: "Some 2 \<noteq> Some (1::nat)" by simp
  note t = conflict_appends_requantize_state [of settled_driver 1 0 1 "Some 2" 2 0 1 "Some 2"]
  have r: "SetResultParams 1 0 (Some 2) settled_driver =
        (True, settled_driver\<lparr>rescale_states := (rescale_states settled_driver)
           (state_index (result_states settled_driver) (1, 0) :=
              GetResultRequantizeStates settled_driver 1 0 @ [\<lparr>pos = ON_INPUT, rparams = Some 2, users = []\<rparr>])\<rparr>)
      \<and> params (GetResultQuantState (snd (SetResultParams 1 0 (Some 2) settled_driver)) 1 0) = Some 1"
    using t h1 h4 by blast
  have o: "SetOperandParams 2 0 (Some 2) False settled_driver =
        (True, settled_driver\<lparr>rescale_states := (rescale_states settled_driver)
           (state_index (operand_states settled_driver) (2, 0) :=
              GetOperandRequantizeStates settled_driver 2 0 @
                [\<lparr>pos = ON_OUTPUT, rparams = Some 2, users = [(2, 0)]\<rparr>])\<rparr>)
      \<and> params (GetOperandQuantState (snd (SetOperandParams 2 0 (Some 2) False settled_driver)) 2 0) = Some 1"
    using t h2 h3 h4 by blast
  have r1: "fst (SetResultParams 1 0 (Some 2) settled_driver)"
    by (subst conjunct1 [OF r]) simp
  have o1: "fst (SetOperandParams 2 0 (Some 2) False settled_driver)"
    by (subst conjunct1 [OF o]) simp
  show ?thesis using h1 h2 e r o r1 o1 by blast
qed

text \<open>
  Counterexample for claim C3 as stated: both operands of operation 2 read the value
  whose state holds the parameters 1. When first operand 0 and then operand 1 is given
  the different parameters 2, the second call returns "changed" and appends nothing: the
  one pending entry gets operand 1 as a further user.
\<close>

theorem second_conflict_appends_nothing:
  "params (GetOperandQuantState (snd (SetOperandParams 2 0 (Some 2) False settled_driver)) 2 1) = Some 1 \<and>
   SetOperandParams 2 1 (Some 2) False (snd (SetOperandParams 2 0 (Some 2) False settled_driver)) =
     (True, (snd (SetOperandParams 2 0 (Some 2) False settled_driver))
        \<lparr>rescale_states := (rescale_states (snd (SetOperandParams 2 0 (Some 2) False settled_driver)))
           (2 := [\<lparr>pos = ON_OUTPUT, rparams = Some 2, users = [(2, 0), (2, 1)]\<rparr>])\<rparr>) \<and>
   length (GetOperandRequantizeStates
      (snd (SetOperandParams 2 1 (Some 2) False (snd (SetOperandParams 2 0 (Some 2) False settled_driver)))) 2 1) =
   length (GetOperandRequantizeStates (snd (SetOperandParams 2 0 (Some 2) False settled_driver)) 2 1)"
proof -
  let ?d = "snd (SetOperandParams 2 0 (Some 2) False settled_driver)"
  have s: "state_index (operand_states ?d) (2, 1) = 2" by code_simp
  have p: "params (GetOperandQuantState ?d 2 1) = Some 1" by code_simp
  have r: "rescale_states ?d 2 = [\<lparr>pos = ON_OUTPUT, rparams = Some 2, users = [(2, 0)]\<rparr>]"
    by code_simp
  have c: "SetOperandParams 2 1 (Some 2) False ?d =
     (True, ?d\<lparr>rescale_states := (rescale_states ?d)
           (2 := [\<lparr>pos = ON_OUTPUT, rparams = Some 2, users = [(2, 0), (2, 1)]\<rparr>])\<rparr>)"
    using s p r by (simp add: SetOperandParams_def Let_def IsEmpty_def)
  show ?thesis unfolding c using p r s by (simp add: GetOperandRequantizeStates_def)
qed

text \<open>
  Claim C10, as amended. When \<^verbatim>\<open>SetOperandParams\<close> is called without \<open>override\<close> on a
  state that holds parameters, with a different proposal that is the target of a pending
  entry of that state, no entry is appended: the pair \<open>(op, index)\<close> is added to the users
  of the first such entry and the call returns "changed". So no call of
  \<^verbatim>\<open>SetOperandParams\<close> puts a second entry with the same target into a list whose targets
  are distinct.
\<close>

theorem conflict_with_pending_target_adds_user:
  assumes "params (GetOperandQuantState d op i) = Some p1" and "ps \<noteq> Some p1"
    and "k < length (GetOperandRequantizeStates d op i)"
    and "rparams (GetOperandRequantizeStates d op i ! k) = ps"
    and "\<forall>j<k. rparams (GetOperandRequantizeStates d op i ! j) \<noteq> ps"
  shows "SetOperandParams op i ps False d =
           (True, d\<lparr>rescale_states := (rescale_states d)
              (state_index (operand_states d) (op, i) :=
                 (GetOperandRequantizeStates d op i)
                   [k := (GetOperandRequantizeStates d op i ! k)
                      \<lparr>users := users (GetOperandRequantizeStates d op i ! k) @ [(op, i)]\<rparr>])\<rparr>)
         \<and> length (GetOperandRequantizeStates (snd (SetOperandParams op i ps False d)) op i) =
             length (GetOperandRequantizeStates d op i)
         \<and> (distinct (map rparams (GetOperandRequantizeStates d op i)) \<longrightarrow>
             distinct (map rparams (GetOperandRequantizeStates (snd (SetOperandParams op i ps ov d)) op i)))"
proof -
  let ?rs = "GetOperandRequantizeStates d op i"
  have a: "add_user_to_rescale ps (op, i) ?rs = Some (?rs[k := (?rs ! k)\<lparr>users := users (?rs ! k) @ [(op, i)]\<rparr>])"
    using assms(3-5) by (rule add_user_to_rescale_first)
  have 1: "SetOperandParams op i ps False d =
           (True, d\<lparr>rescale_states := (rescale_states d)
              (state_index (operand_states d) (op, i) :=
                 ?rs[k := (?rs ! k)\<lparr>users := users (?rs ! k) @ [(op, i)]\<rparr>])\<rparr>)"
    using assms(1,2) a
    by (auto simp: SetOperandParams_def Let_def IsEmpty_def GetOperandRequantizeStates_def)
  have 2: "length (GetOperandRequantizeStates (snd (SetOperandParams op i ps False d)) op i) = length ?rs"
    unfolding 1 by (simp add: GetOperandRequantizeStates_def)
  show ?thesis using 1 2 SetOperandParams_targets by blast
qed

text \<open>
  Witness for claim C10: after operand 0 of operation 2 has asked for the parameters 2,
  operand 1 of operation 2, which reads the same value, asks for them too.
\<close>

theorem conflict_with_pending_target_adds_user_witness:
  "params (GetOperandQuantState (snd (SetOperandParams 2 0 (Some 2) False settled_driver)) 2 1) = Some 1 \<and>
   0 < length (GetOperandRequantizeStates (snd (SetOperandParams 2 0 (Some 2) False settled_driver)) 2 1) \<and>
   rparams (GetOperandRequantizeStates (snd (SetOperandParams 2 0 (Some 2) False settled_driver)) 2 1 ! 0) = Some 2 \<and>
   distinct (map rparams (GetOperandRequantizeStates (snd (SetOperandParams 2 0 (Some 2) False settled_driver)) 2 1)) \<and>
   fst (SetOperandParams 2 1 (Some 2) False (snd (SetOperandParams 2 0 (Some 2) False settled_driver))) \<and>
   length (GetOperandRequantizeStates
      (snd (SetOperandParams 2 1 (Some 2) False (snd (SetOperandParams 2 0 (Some 2) False settled_driver)))) 2 1) =
     length (GetOperandRequantizeStates (snd (SetOperandParams 2 0 (Some 2) False settled_driver)) 2 1) \<and>
   distinct (map rparams (GetOperandRequantizeStates
      (snd (SetOperandParams 2 1 (Some 2) False (snd (SetOperandParams 2 0 (Some 2) False settled_driver)))) 2 1))"
proof -
  let ?d = "snd (SetOperandParams 2 0 (Some 2) False settled_driver)"
  have h1: "params (GetOperandQuantState ?d 2 1) = Some 1" by code_simp
  have h2: "Some 2 \<noteq> Some (1::nat)" by simp
  have h3: "0 < length (GetOperandRequantizeStates ?d 2 1)" by code_simp
  have h4: "rparams (GetOperandRequantizeStates ?d 2 1 ! 0) = Some 2" by code_simp
  have h5: "\<forall>j<0. rparams (GetOperandRequantizeStates ?d 2 1 ! j) \<noteq> Some 2" by simp
  have h6: "distinct (map rparams (GetOperandRequantizeStates ?d 2 1))" by code_simp
  note t = conflict_with_pending_target_adds_user [OF h1 h2 h3 h4 h5, of False]
  have a: "fst (SetOperandParams 2 1 (Some 2) False ?d)"
    by (subst conjunct1 [OF t]) simp
  have b: "length (GetOperandRequantizeStates (snd (SetOperandParams 2 1 (Some 2) False ?d)) 2 1) =
           length (GetOperandRequantizeStates ?d 2 1)"
    using t by blast
  have c: "distinct (map rparams (GetOperandRequantizeStates (snd (SetOperandParams 2 1 (Some 2) False ?d)) 2 1))"
    using t h6 by blast
  show ?thesis using h1 h3 h4 h6 a b c by blast
qed

text \<open>
  Counterexample for claim C10 as stated: the value that is result 0 of operation 1 and
  operand 0 of operation 2 holds the parameters 1. After operand 0 of operation 2 has
  asked for the parameters 2, \<^verbatim>\<open>SetResultParams\<close> for result 0 of operation 1 with the
  same parameters 2 appends a second entry with that target to the list of the operand.
\<close>

theorem result_conflict_repeats_pending_target:
  "map rparams (GetOperandRequantizeStates
      (snd (SetResultParams 1 0 (Some 2) (snd (SetOperandParams 2 0 (Some 2) False settled_driver)))) 2 0) =
     [Some 2, Some 2]"
  by code_simp

subsection \<open>Same-scale unification\<close>

lemma fold_push_state:
  "fold (\<lambda>i. push_state (f i)) is (ms, ims) =
     (ms @ filter ready (map f is), ims @ filter immutable (map f is))"
  by (induction "is" arbitrary: ms ims) (auto simp: ready_def)

lemma find_filter: "find P xs = (case filter P xs of [] \<Rightarrow> None | x # _ \<Rightarrow> Some x)"
  by (induction xs) auto

lemma singleton_hd: "length xs = 1 \<Longrightarrow> xs = [hd xs]"
  by (cases xs) auto

lemma same_scale_lists:
  assumes "no = length os" "nr = length rs"
  shows
  "(let (ms, ims) = (filter ready os, filter immutable os);
        ion = length ims; mon = length ms
    in if no = 1 \<and> ion = 1 then params (hd ims)
       else (let (ms2, ims2) = (ms @ filter ready rs, ims @ filter immutable rs);
                 irn = length ims2 - ion; mrn = length ms2 - mon
             in if nr = 1 \<and> irn = 1 then params (last ims2)
                else if ims2 \<noteq> [] then params (hd ims2)
                else if no = 1 \<and> mon = 1 then params (hd ms2)
                else if nr = 1 \<and> mrn = 1 then params (last ms2)
                else if ms2 \<noteq> [] then params (hd ms2)
                else None)) = same_scale_priority os rs"
proof -
  consider (a) "length os = 1" "length rs = 1" | (b) "length os = 1" "length rs \<noteq> 1"
    | (c) "length os \<noteq> 1" "length rs = 1" | (d) "length os \<noteq> 1" "length rs \<noteq> 1" by blast
  then show ?thesis
  proof cases
    case a
    then obtain x y where "os = [x]" "rs = [y]" by (metis singleton_hd)
    then show ?thesis using assms by (auto simp: same_scale_priority_def ready_def Let_def)
  next
    case b
    then obtain x where "os = [x]" by (metis singleton_hd)
    then show ?thesis using b assms
      by (auto simp: same_scale_priority_def ready_def Let_def find_filter split: list.splits)
  next
    case c
    then obtain y where "rs = [y]" by (metis singleton_hd)
    then show ?thesis using c assms
      by (auto simp: same_scale_priority_def ready_def Let_def find_filter split: list.splits)
  next
    case d
    then show ?thesis using assms
      by (auto simp: same_scale_priority_def Let_def find_filter split: list.splits)
  qed
qed

text \<open>
  Claim C4. \<^verbatim>\<open>GetQuantParamsForSameScaleConstraint\<close> is a function of the operand states
  and the result states of the operation, and it returns what the priority order of the
  specification gives: the single operand if it is immutable; else the single result if
  it is immutable; else the first immutable state, operands before results; else the
  single operand if it is mutable and non-empty; else the single result likewise; else the
  first mutable non-empty state; else no decision.
\<close>

theorem same_scale_follows_priority:
  "GetQuantParamsForSameScaleConstraint d op =
     same_scale_priority (operand_state_list d op) (result_state_list d op)"
  unfolding GetQuantParamsForSameScaleConstraint_def operand_state_list_def result_state_list_def
    fold_push_state append_Nil
  by (rule same_scale_lists) simp_all

text \<open>
  Claim C4, the instance of the specification: operation 1 of \<open>settled_driver\<close> has two
  operands, of which operand 0 is immutable (parameters 1), and two results, of which
  result 0 is mutable and holds parameters; the parameters of the immutable operand are
  chosen.
\<close>

theorem same_scale_follows_priority_witness:
  "map immutable (operand_state_list (snd (SetResultParams 1 0 (Some 2) example_driver)) 1) = [True, False] \<and>
   map ready (result_state_list (snd (SetResultParams 1 0 (Some 2) example_driver)) 1) = [True, False] \<and>
   GetQuantParamsForSameScaleConstraint (snd (SetResultParams 1 0 (Some 2) example_driver)) 1 = Some 1"
proof -
  let ?d = "snd (SetResultParams 1 0 (Some 2) example_driver)"
  have h1: "map immutable (operand_state_list ?d 1) = [True, False]" by code_simp
  have h2: "map ready (result_state_list ?d 1) = [True, False]" by code_simp
  have h3: "same_scale_priority (operand_state_list ?d 1) (result_state_list ?d 1) = Some 1"
    by code_simp
  show ?thesis using h1 h2 h3 same_scale_follows_priority [of ?d 1] by simp
qed

subsection \<open>One state per value\<close>

lemma initialize_value_to_state:
  "value_to_state (initialize p v t d) = (value_to_state d)(v \<mapsto> fresh_index d v)"
  by (cases p)
     (auto simp: InitializeOperandState_def InitializeResultState_def InitializeStateForValue_def
        InitializeArgState_def fresh_index_def Let_def fun_upd_idem_iff split: option.splits)

lemma initialize_position_state:
  "position_state (initialize p v t d) q = (if q = p then Some (fresh_index d v) else position_state d q)"
  by (cases p; cases q)
     (auto simp: InitializeOperandState_def InitializeResultState_def InitializeStateForValue_def
        InitializeArgState_def fresh_index_def Let_def split: option.splits if_splits)

lemma initialize_length_states:
  "length (states (initialize p v t d)) =
     (case value_to_state d v of Some c \<Rightarrow> length (states d) | None \<Rightarrow> Suc (length (states d)))"
  by (cases p)
     (auto simp: InitializeOperandState_def InitializeResultState_def InitializeStateForValue_def
        InitializeArgState_def Let_def split: option.splits)

lemma initialize_store_ok:
  assumes "store_ok d"
  shows "store_ok (initialize p v t d)"
proof (cases "value_to_state d v")
  case None
  have ran_lt: "\<And>w i. value_to_state d w = Some i \<Longrightarrow> i < length (states d)"
    using assms by (auto simp: store_ok_def ran_def)
  have inj: "inj_on (value_to_state d) (dom (value_to_state d))"
    using assms by (simp add: store_ok_def)
  have "inj_on ((value_to_state d)(v \<mapsto> length (states d))) (dom ((value_to_state d)(v \<mapsto> length (states d))))"
  proof (rule inj_onI)
    fix x y
    assume x: "x \<in> dom ((value_to_state d)(v \<mapsto> length (states d)))"
       and y: "y \<in> dom ((value_to_state d)(v \<mapsto> length (states d)))"
       and e: "((value_to_state d)(v \<mapsto> length (states d))) x = ((value_to_state d)(v \<mapsto> length (states d))) y"
    show "x = y"
    proof (cases "x = v")
      case True
      show ?thesis
      proof (rule ccontr)
        assume "x \<noteq> y"
        then have "value_to_state d y = Some (length (states d))" using e True by (simp split: if_splits)
        then show False using ran_lt by fastforce
      qed
    next
      case xv: False
      show ?thesis
      proof (cases "y = v")
        case True
        then have "value_to_state d x = Some (length (states d))" using e xv by (simp split: if_splits)
        then show ?thesis using ran_lt by fastforce
      next
        case False
        then have "value_to_state d x = value_to_state d y" using e xv by simp
        moreover have "x \<in> dom (value_to_state d)" "y \<in> dom (value_to_state d)"
          using x y xv False by auto
        ultimately show ?thesis using inj by (auto dest: inj_onD)
      qed
    qed
  qed
  moreover have "\<forall>i \<in> ran ((value_to_state d)(v \<mapsto> length (states d))). i < Suc (length (states d))"
    by (auto simp: ran_def less_Suc_eq split: if_splits dest: ran_lt)
  ultimately show ?thesis
    using None by (simp add: store_ok_def initialize_value_to_state initialize_length_states fresh_index_def)
next
  case (Some c)
  then have "(value_to_state d)(v \<mapsto> c) = value_to_state d" by (simp add: fun_upd_idem_iff)
  then show ?thesis
    using assms Some by (simp add: store_ok_def initialize_value_to_state initialize_length_states fresh_index_def)
qed

lemma initialize_map_le: "value_to_state d \<subseteq>\<^sub>m value_to_state (initialize p v t d)"
  by (auto simp: map_le_def initialize_value_to_state fresh_index_def dom_def)

lemma initialize_all_map_le: "value_to_state d \<subseteq>\<^sub>m value_to_state (initialize_all calls d)"
proof (induction calls arbitrary: d)
  case Nil
  then show ?case by (simp add: initialize_all_def)
next
  case (Cons c calls)
  obtain p v t where c: "c = (p, v, t)" by (cases c)
  have "value_to_state d \<subseteq>\<^sub>m value_to_state (initialize p v t d)" by (rule initialize_map_le)
  also have "\<dots> \<subseteq>\<^sub>m value_to_state (initialize_all calls (initialize p v t d))" by (rule Cons.IH)
  finally show ?case by (simp add: initialize_all_def c)
qed

lemma initialize_all_store_ok: "store_ok d \<Longrightarrow> store_ok (initialize_all calls d)"
proof (induction calls arbitrary: d)
  case Nil
  then show ?case by (simp add: initialize_all_def)
next
  case (Cons c calls)
  obtain p v t where c: "c = (p, v, t)" by (cases c)
  have "store_ok (initialize p v t d)" using Cons.prems by (rule initialize_store_ok)
  then have "store_ok (initialize_all calls (initialize p v t d))" by (rule Cons.IH)
  then show ?case by (simp add: initialize_all_def c)
qed

lemma initialize_all_position:
  "position_state (initialize_all calls d) p =
     (case last_value p calls of
        Some v \<Rightarrow> value_to_state (initialize_all calls d) v
      | None \<Rightarrow> position_state d p)"
proof (induction calls arbitrary: d)
  case Nil
  then show ?case by (simp add: initialize_all_def)
next
  case (Cons c calls)
  obtain q v t where c: "c = (q, v, t)" by (cases c)
  let ?d1 = "initialize q v t d"
  have step: "initialize_all ((q, v, t) # calls) d = initialize_all calls ?d1"
    by (simp add: initialize_all_def)
  have "position_state (initialize_all ((q, v, t) # calls) d) p =
     (case last_value p ((q, v, t) # calls) of
        Some w \<Rightarrow> value_to_state (initialize_all ((q, v, t) # calls) d) w
      | None \<Rightarrow> position_state d p)"
  proof (cases "last_value p calls")
    case (Some w)
    then show ?thesis using Cons.IH[of ?d1] by (simp add: step)
  next
    case None
    show ?thesis
    proof (cases "q = p")
      case True
      have "value_to_state ?d1 v = Some (fresh_index d v)" by (simp add: initialize_value_to_state)
      then have "value_to_state (initialize_all calls ?d1) v = Some (fresh_index d v)"
        using initialize_all_map_le[of ?d1 calls] by (auto simp: map_le_def dom_def)
      then show ?thesis unfolding step using Cons.IH[of ?d1] None True
        by (simp add: initialize_position_state)
    next
      case False
      then show ?thesis using Cons.IH[of ?d1] None
        by (simp add: step initialize_position_state)
    qed
  qed
  then show ?case unfolding c .
qed

lemma last_value_in_calls:
  "last_value p calls = Some v \<Longrightarrow> \<exists>t. (p, v, t) \<in> set calls"
  by (induction calls) (auto split: option.splits if_splits)

lemma initialize_all_defined:
  "(p, v, t) \<in> set calls \<Longrightarrow> value_to_state (initialize_all calls d) v \<noteq> None"
proof (induction calls arbitrary: d)
  case Nil
  then show ?case by simp
next
  case (Cons c calls)
  obtain q w u where c: "c = (q, w, u)" by (cases c)
  let ?d1 = "initialize q w u d"
  have step: "initialize_all (c # calls) d = initialize_all calls ?d1"
    unfolding c by (simp add: initialize_all_def)
  show ?case
  proof (cases "(p, v, t) \<in> set calls")
    case True
    then show ?thesis using Cons.IH[OF True] by (simp add: step)
  next
    case False
    then have "w = v" using Cons.prems c by auto
    then have "value_to_state ?d1 v \<noteq> None" by (simp add: initialize_value_to_state)
    then show ?thesis using initialize_all_map_le[of ?d1 calls]
      unfolding step by (auto simp: map_le_def dom_def)
  qed
qed

lemma position_state_assign [simp]: "position_state (assign p ps ov d) q = position_state d q"
  by (cases p; cases q)
     (auto simp: SetOperandParams_def SetResultParams_def Let_def AddUserToList_def AddOperandToList_def
        split: option.splits)

lemma read_state_index:
  "read_state d p = states d ! (case position_state d p of Some i \<Rightarrow> i | None \<Rightarrow> 0)"
  by (cases p) (auto simp: GetOperandQuantState_def GetResultQuantState_def GetArgQuantState_def state_index_def)

lemma assign_empty:
  assumes "IsEmpty (read_state d p)" "\<forall>a. p \<noteq> ArgPos a" "position_state d p = Some s" "s < length (states d)"
  shows "params (states (assign p ps ov d) ! s) = ps"
proof (cases p)
  case (OperandPos u)
  obtain op i where u: "u = (op, i)" by (cases u)
  show ?thesis using assms
    by (auto simp: OperandPos u SetOperandParams_def Let_def GetOperandQuantState_def state_index_def IsEmpty_def
        AddOperandToList_def split: option.splits)
next
  case (ResultPos u)
  obtain op i where u: "u = (op, i)" by (cases u)
  show ?thesis using assms
    by (auto simp: ResultPos u SetResultParams_def Let_def GetResultQuantState_def state_index_def IsEmpty_def
        AddUserToList_def split: option.splits)
next
  case (ArgPos a)
  then show ?thesis using assms by simp
qed

text \<open>
  Claim C8. After any sequence of initializations (of operand, result and argument
  positions) on a consistent state store, two positions resolve to states of the vector,
  and to the same state exactly if the values of their last initializations are the same
  value. For the same value, what is read through the second position after an
  assignment through the first is what is read through the first; in particular a
  proposal assigned to the empty state through the first position is read through the
  second.
\<close>

theorem shared_value_one_state:
  assumes "store_ok d" and "last_value p1 calls = Some v1" and "last_value p2 calls = Some v2"
  shows "(\<exists>s1 s2. position_state (initialize_all calls d) p1 = Some s1 \<and>
                  position_state (initialize_all calls d) p2 = Some s2 \<and>
                  s1 < length (states (initialize_all calls d)) \<and>
                  s2 < length (states (initialize_all calls d)) \<and>
                  (s1 = s2) = (v1 = v2)) \<and>
         (v1 = v2 \<longrightarrow>
            read_state (assign p1 ps ov (initialize_all calls d)) p2 =
              read_state (assign p1 ps ov (initialize_all calls d)) p1 \<and>
            (IsEmpty (read_state (initialize_all calls d) p1) \<and> (\<forall>a. p1 \<noteq> ArgPos a) \<longrightarrow>
               params (read_state (assign p1 ps ov (initialize_all calls d)) p2) = ps))"
proof -
  let ?d = "initialize_all calls d"
  have ok: "store_ok ?d" using assms(1) by (rule initialize_all_store_ok)
  have p1: "position_state ?d p1 = value_to_state ?d v1"
    using assms(2) by (simp add: initialize_all_position)
  have p2: "position_state ?d p2 = value_to_state ?d v2"
    using assms(3) by (simp add: initialize_all_position)
  obtain s1 where s1: "value_to_state ?d v1 = Some s1"
    using last_value_in_calls[OF assms(2)] initialize_all_defined by fastforce
  obtain s2 where s2: "value_to_state ?d v2 = Some s2"
    using last_value_in_calls[OF assms(3)] initialize_all_defined by fastforce
  have lt: "s1 < length (states ?d)" "s2 < length (states ?d)"
    using ok s1 s2 by (auto simp: store_ok_def ran_def)
  have inj: "(s1 = s2) = (v1 = v2)"
  proof
    assume "s1 = s2"
    then have "value_to_state ?d v1 = value_to_state ?d v2" using s1 s2 by simp
    moreover have "v1 \<in> dom (value_to_state ?d)" "v2 \<in> dom (value_to_state ?d)" using s1 s2 by auto
    ultimately show "v1 = v2" using ok by (auto simp: store_ok_def dest: inj_onD)
  next
    assume "v1 = v2"
    then show "s1 = s2" using s1 s2 by simp
  qed
  have first: "\<exists>s1 s2. position_state ?d p1 = Some s1 \<and> position_state ?d p2 = Some s2 \<and>
                  s1 < length (states ?d) \<and> s2 < length (states ?d) \<and> (s1 = s2) = (v1 = v2)"
    using p1 p2 s1 s2 lt inj by auto
  have second: "read_state (assign p1 ps ov ?d) p2 = read_state (assign p1 ps ov ?d) p1 \<and>
            (IsEmpty (read_state ?d p1) \<and> (\<forall>a. p1 \<noteq> ArgPos a) \<longrightarrow>
               params (read_state (assign p1 ps ov ?d) p2) = ps)" if eq: "v1 = v2"
  proof -
    have same: "position_state ?d p2 = Some s1" "position_state ?d p1 = Some s1"
      using p1 p2 s1 eq by simp_all
    have r: "read_state (assign p1 ps ov ?d) p2 = states (assign p1 ps ov ?d) ! s1"
            "read_state (assign p1 ps ov ?d) p1 = states (assign p1 ps ov ?d) ! s1"
      using same by (simp_all add: read_state_index)
    show ?thesis using r assign_empty[OF _ _ same(2) lt(1)] by auto
  qed
  show ?thesis using first second by blast
qed


lemma store_ok_new_driver: "store_ok (new_driver f sg ssg)"
  by (simp add: store_ok_def new_driver_def)

text \<open>
  Witness for claim C8: the two operands of operation 2 of \<open>example_fn\<close> read the same
  value; after the initializations they have one state, and the parameters 7 assigned
  through operand 0 are read through operand 1.
\<close>

theorem shared_value_one_state_witness:
  "last_value (OperandPos (2, 0)) example_calls = Some (OpResult 1 0) \<and>
   last_value (OperandPos (2, 1)) example_calls = Some (OpResult 1 0) \<and>
   position_state (initialize_all example_calls fresh_driver) (OperandPos (2, 0)) =
     position_state (initialize_all example_calls fresh_driver) (OperandPos (2, 1)) \<and>
   params (read_state (assign (OperandPos (2, 0)) (Some 7) False
                         (initialize_all example_calls fresh_driver)) (OperandPos (2, 1))) = Some 7"
proof -
  have h1: "store_ok fresh_driver" unfolding fresh_driver_def by (rule store_ok_new_driver)
  have h2: "last_value (OperandPos (2, 0)) example_calls = Some (OpResult 1 0)" by code_simp
  have h3: "last_value (OperandPos (2, 1)) example_calls = Some (OpResult 1 0)" by code_simp
  have h4: "IsEmpty (read_state (initialize_all example_calls fresh_driver) (OperandPos (2, 0)))"
    by code_simp
  note t = shared_value_one_state [OF h1 h2 h3, of "Some 7" False]
  have a: "position_state (initialize_all example_calls fresh_driver) (OperandPos (2, 0)) =
           position_state (initialize_all example_calls fresh_driver) (OperandPos (2, 1))"
    using t by auto
  have b: "params (read_state (assign (OperandPos (2, 0)) (Some 7) False
                         (initialize_all example_calls fresh_driver)) (OperandPos (2, 1))) = Some 7"
    using t h4 by blast
  show ?thesis using h2 h3 a b by blast
qed

subsection \<open>The constant preprocessor\<close>

lemma ops_setOperand:
  "ops (setOperand op i v f) =
     (ops f)[op := (ops f ! op)\<lparr>operands := (operands (ops f ! op))[i := v]\<rparr>]"
proof (cases "op < length (ops f) \<and> i < length (operands (ops f ! op))")
  case True
  then show ?thesis by (simp add: setOperand_def)
next
  case False
  then show ?thesis by (auto simp: setOperand_def list_update_beyond list_update_same_conv)
qed

lemma preprocess_use_getters:
  "op_quant_spec_getter (preprocess_use cst m u d) = op_quant_spec_getter d \<and>
   op_quant_scale_spec_getter (preprocess_use cst m u d) = op_quant_scale_spec_getter d"
  by (auto simp: preprocess_use_def Let_def builder_create_def create_op_def split: option.splits)

lemma preprocess_use_ops:
  assumes "fst u < length (ops (fn d))"
  shows "ops (fn (preprocess_use cst m u d)) =
     (if weight_like d u \<or> \<not> 1 < m then ops (fn d)
      else (ops (fn d) @ [constant_copy cst d])
             [fst u := (ops (fn d) ! fst u)
                \<lparr>operands := (operands (ops (fn d) ! fst u))[snd u := OpResult (length (ops (fn d))) 0]\<rparr>])"
  using assms
  by (auto simp: preprocess_use_def Let_def builder_create_def create_op_def weight_like_def
        ops_setOperand constant_copy_def nth_append split: option.splits)

lemma preprocess_use_weight_like:
  assumes "fst v < length (ops (fn d))" "fst u < length (ops (fn d))"
  shows "weight_like (preprocess_use cst m u d) v = weight_like d v"
proof -
  have "kind (ops (fn (preprocess_use cst m u d)) ! fst v) = kind (ops (fn d) ! fst v)"
    using assms by (auto simp: preprocess_use_ops nth_list_update nth_append)
  then show ?thesis
    by (simp add: weight_like_def GetQuantSpec_def GetQuantScaleSpec_def preprocess_use_getters)
qed

lemma preprocess_use_constant_copy:
  assumes "cst < length (ops (fn d))" "fst u < length (ops (fn d))"
  shows "constant_copy cst (preprocess_use cst m u d) = constant_copy cst d"
  using assms by (auto simp: constant_copy_def preprocess_use_ops nth_list_update nth_append)

lemma preprocess_use_length:
  assumes "fst u < length (ops (fn d))" "1 < m"
  shows "length (ops (fn (preprocess_use cst m u d))) =
           length (ops (fn d)) + (if weight_like d u then 0 else 1)"
  using assms by (simp add: preprocess_use_ops)

lemma preprocess_use_operands_length:
  assumes "fst u < length (ops (fn d))" "op < length (ops (fn d))"
  shows "length (operands (ops (fn (preprocess_use cst m u d)) ! op)) = length (operands (ops (fn d) ! op))"
  using assms by (auto simp: preprocess_use_ops nth_list_update nth_append)

lemma preprocess_use_operand:
  assumes "fst u < length (ops (fn d))" "snd u < length (operands (ops (fn d) ! fst u))"
    "op < length (ops (fn d))" "1 < m"
  shows "operands (ops (fn (preprocess_use cst m u d)) ! op) ! k =
           (if (op, k) = u \<and> \<not> weight_like d u then OpResult (length (ops (fn d))) 0
            else operands (ops (fn d) ! op) ! k)"
  using assms by (cases u) (auto simp: preprocess_use_ops nth_list_update nth_append)

lemma preprocess_use_new_op:
  assumes "fst u < length (ops (fn d))" "1 < m" "\<not> weight_like d u"
  shows "ops (fn (preprocess_use cst m u d)) ! length (ops (fn d)) = constant_copy cst d"
  using assms by (auto simp: preprocess_use_ops nth_list_update nth_append)

lemma uses_ok_step:
  assumes "uses_ok d us" "fst u < length (ops (fn d))" "1 < m"
  shows "uses_ok (preprocess_use cst m u d) us"
  using assms
  by (auto simp: uses_ok_def list_all_iff preprocess_use_length preprocess_use_operands_length)

lemma fold_preprocess_use_old_op:
  assumes "1 < m" "uses_ok d us" "i < length (ops (fn d))" "\<forall>k. (i, k) \<notin> set us"
  shows "ops (fn (fold (preprocess_use cst m) us d)) ! i = ops (fn d) ! i"
  using assms
proof (induction us arbitrary: d)
  case Nil
  then show ?case by simp
next
  case (Cons u us)
  let ?d1 = "preprocess_use cst m u d"
  have u: "fst u < length (ops (fn d))" using Cons.prems(2) by (simp add: uses_ok_def)
  have ok1: "uses_ok ?d1 us"
    using Cons.prems(1,2) u by (auto simp: uses_ok_def intro: uses_ok_step[unfolded uses_ok_def])
  have i1: "i < length (ops (fn ?d1))" using Cons.prems(1,3) u by (simp add: preprocess_use_length)
  have ne: "i \<noteq> fst u" using Cons.prems(4) by (cases u) auto
  have "ops (fn (fold (preprocess_use cst m) us ?d1)) ! i = ops (fn ?d1) ! i"
    using Cons.IH[OF Cons.prems(1) ok1 i1] Cons.prems(4) by simp
  also have "\<dots> = ops (fn d) ! i"
    using u Cons.prems(3) ne by (auto simp: preprocess_use_ops nth_list_update nth_append)
  finally show ?case by simp
qed

lemma fold_preprocess_use:
  assumes "1 < m" "distinct us" "uses_ok d us" "cst < length (ops (fn d))"
  shows "length (ops (fn (fold (preprocess_use cst m) us d))) =
           length (ops (fn d)) + length (filter (propagated d) us)
       \<and> (\<forall>j<length us. operands (ops (fn (fold (preprocess_use cst m) us d)) ! fst (us ! j)) ! snd (us ! j) =
            (if weight_like d (us ! j) then operands (ops (fn d) ! fst (us ! j)) ! snd (us ! j)
             else OpResult (length (ops (fn d)) + length (filter (propagated d) (take j us))) 0))
       \<and> (\<forall>op k. op < length (ops (fn d)) \<longrightarrow> (op, k) \<notin> set us \<longrightarrow>
            operands (ops (fn (fold (preprocess_use cst m) us d)) ! op) ! k = operands (ops (fn d) ! op) ! k)
       \<and> (\<forall>i. length (ops (fn d)) \<le> i \<longrightarrow> i < length (ops (fn (fold (preprocess_use cst m) us d))) \<longrightarrow>
            ops (fn (fold (preprocess_use cst m) us d)) ! i = constant_copy cst d)"
  using assms
proof (induction us arbitrary: d)
  case Nil
  then show ?case by simp
next
  case (Cons u us)
  let ?d1 = "preprocess_use cst m u d"
  let ?n = "length (ops (fn d))"
  let ?n1 = "length (ops (fn ?d1))"
  let ?d2 = "fold (preprocess_use cst m) us ?d1"
  have u: "fst u < ?n" "snd u < length (operands (ops (fn d) ! fst u))"
    using Cons.prems(3) by (simp_all add: uses_ok_def)
  have ok: "uses_ok d us" using Cons.prems(3) by (simp add: uses_ok_def)
  have ok1: "uses_ok ?d1 us" using ok u(1) Cons.prems(1) by (rule uses_ok_step)
  have n1: "?n1 = ?n + (if weight_like d u then 0 else 1)"
    using u(1) Cons.prems(1) by (rule preprocess_use_length)
  have cst1: "cst < ?n1" using Cons.prems(4) n1 by simp
  have dist: "distinct us" "u \<notin> set us" using Cons.prems(2) by simp_all
  note IH = Cons.IH[OF Cons.prems(1) dist(1) ok1 cst1]
  have wl: "weight_like ?d1 v = weight_like d v" if "v \<in> set us" for v
  proof -
    have "fst v < ?n" using ok that by (auto simp: uses_ok_def list_all_iff)
    then show ?thesis using u(1) by (rule preprocess_use_weight_like)
  qed
  have pr: "filter (propagated ?d1) us = filter (propagated d) us"
    using wl by (auto simp: propagated_def intro: filter_cong)
  have prt: "\<And>j. filter (propagated ?d1) (take j us) = filter (propagated d) (take j us)"
    using wl by (auto simp: propagated_def intro!: filter_cong dest: in_set_takeD)
  have cc: "constant_copy cst ?d1 = constant_copy cst d"
    using Cons.prems(4) u(1) by (rule preprocess_use_constant_copy)
  have pu: "propagated d u = (\<not> weight_like d u)" by (simp add: propagated_def)
  have A: "length (ops (fn ?d2)) = ?n + length (filter (propagated d) (u # us))"
    using IH n1 pr pu by simp
  have C: "operands (ops (fn ?d2) ! op) ! k = operands (ops (fn d) ! op) ! k"
    if "op < ?n" "(op, k) \<notin> set (u # us)" for op k
  proof -
    have "op < ?n1" using that(1) n1 by simp
    moreover have "(op, k) \<notin> set us" using that(2) by simp
    ultimately have "operands (ops (fn ?d2) ! op) ! k = operands (ops (fn ?d1) ! op) ! k"
      using IH by blast
    also have "\<dots> = operands (ops (fn d) ! op) ! k"
      using that preprocess_use_operand[OF u that(1) Cons.prems(1), of cst k] by auto
    finally show ?thesis .
  qed
  have D: "operands (ops (fn ?d2) ! fst ((u # us) ! j)) ! snd ((u # us) ! j) =
            (if weight_like d ((u # us) ! j) then operands (ops (fn d) ! fst ((u # us) ! j)) ! snd ((u # us) ! j)
             else OpResult (?n + length (filter (propagated d) (take j (u # us)))) 0)"
    if "j < length (u # us)" for j
  proof (cases j)
    case 0
    have "fst u < ?n1" using u(1) n1 by simp
    moreover have "(fst u, snd u) \<notin> set us" using dist(2) by simp
    ultimately have "operands (ops (fn ?d2) ! fst u) ! snd u = operands (ops (fn ?d1) ! fst u) ! snd u"
      using IH by blast
    also have "\<dots> = (if weight_like d u then operands (ops (fn d) ! fst u) ! snd u else OpResult ?n 0)"
      using preprocess_use_operand[OF u u(1) Cons.prems(1), of cst "snd u"] by auto
    finally show ?thesis using 0 by simp
  next
    case (Suc i)
    then have i: "i < length us" using that by simp
    let ?v = "us ! i"
    have vin: "?v \<in> set us" using i by simp
    have vu: "?v \<noteq> u" using vin dist(2) by auto
    have v: "fst ?v < ?n" using ok vin by (auto simp: uses_ok_def list_all_iff)
    have old: "operands (ops (fn ?d1) ! fst ?v) ! snd ?v = operands (ops (fn d) ! fst ?v) ! snd ?v"
      using preprocess_use_operand[OF u v Cons.prems(1), of cst "snd ?v"] vu by auto
    have "operands (ops (fn ?d2) ! fst ?v) ! snd ?v =
            (if weight_like ?d1 ?v then operands (ops (fn ?d1) ! fst ?v) ! snd ?v
             else OpResult (?n1 + length (filter (propagated ?d1) (take i us))) 0)"
      using IH i by blast
    also have "\<dots> = (if weight_like d ?v then operands (ops (fn d) ! fst ?v) ! snd ?v
             else OpResult (?n + length (filter (propagated d) (take (Suc i) (u # us)))) 0)"
      using wl[OF vin] old n1 prt pu by simp
    finally show ?thesis using Suc by simp
  qed
  have F: "ops (fn ?d2) ! i = constant_copy cst d" if "?n \<le> i" "i < length (ops (fn ?d2))" for i
  proof (cases "?n1 \<le> i")
    case True
    then show ?thesis using IH that(2) cc by auto
  next
    case False
    then have i: "i = ?n" "\<not> weight_like d u" using that(1) n1 by (auto split: if_splits)
    have i1: "i < ?n1" using False by simp
    have nk: "\<forall>k. (i, k) \<notin> set us" using ok i(1) by (auto simp: uses_ok_def list_all_iff)
    have new: "ops (fn ?d1) ! ?n = constant_copy cst d"
      using u(1) Cons.prems(1) i(2) by (rule preprocess_use_new_op)
    have "ops (fn ?d2) ! i = ops (fn ?d1) ! i"
      using Cons.prems(1) ok1 i1 nk by (rule fold_preprocess_use_old_op)
    then show ?thesis using new i(1) by simp
  qed
  show ?case using A C D F by (simp del: nth_Cons_Suc take_Suc_Cons)
qed


lemma processed_constant_preprocess:
  "processed_constant (fn d) cst \<Longrightarrow> preprocess_constant cst d = Inr (preprocess_uses cst d)"
  by (auto simp: processed_constant_def preprocess_constant_def
      split: OpKind.splits Type.splits ElementType.splits Attr.splits list.splits)

lemma distinct_concat_map_fst:
  assumes "distinct xs" "\<And>x. distinct (g x)" "\<And>x p. p \<in> set (g x) \<Longrightarrow> fst p = x"
  shows "distinct (concat (map g xs))"
  using assms(1)
proof (induction xs)
  case Nil
  then show ?case by simp
next
  case (Cons x xs)
  have "set (g x) \<inter> set (concat (map g xs)) = {}"
  proof (rule ccontr)
    assume "set (g x) \<inter> set (concat (map g xs)) \<noteq> {}"
    then obtain p y where "p \<in> set (g x)" "y \<in> set xs" "p \<in> set (g y)" by auto
    then have "x = y" using assms(3) by metis
    then show False using Cons.prems \<open>y \<in> set xs\<close> by simp
  qed
  then show ?case using Cons assms(2) by simp
qed

lemma getUses_distinct: "wf_fn f \<Longrightarrow> distinct (getUses f v)"
  by (simp add: wf_fn_def)

lemma getUses_in_range:
  assumes "wf_fn f" "u \<in> set (getUses f v)"
  shows "fst u < length (ops f) \<and> snd u < length (operands (ops f ! fst u)) \<and>
         operands (ops f ! fst u) ! snd u = v"
  using assms unfolding wf_fn_def by blast

lemma wf_fn_created: "wf_fn (created os ats)"
proof -
  let ?g = "\<lambda>v op. map (\<lambda>i. (op, i))
                (filter (\<lambda>i. operands (os ! op) ! i = v) [0..<length (operands (os ! op))])"
  have d: "distinct (concat (map (?g v) [0..<length os]))" for v
    by (rule distinct_concat_map_fst) (auto simp: distinct_map inj_on_def)
  show ?thesis
    using d by (auto simp: wf_fn_def created_def getUses_def creation_uses_def list_all_iff)
qed

lemma filter_take_strict:
  assumes "i < j" "j \<le> length us" "P (us ! i)"
  shows "length (filter P (take i us)) < length (filter P (take j us))"
proof -
  have i: "i < length us" using assms(1,2) by simp
  have a: "take j us = take (Suc i) (take j us) @ drop (Suc i) (take j us)"
    by (rule append_take_drop_id [symmetric])
  have b: "take (Suc i) (take j us) = take (Suc i) us" using assms(1) by (simp add: min_def)
  have c: "take (Suc i) us = take i us @ [us ! i]" using i by (rule take_Suc_conv_app_nth)
  have "take j us = (take i us @ [us ! i]) @ drop (Suc i) (take j us)"
    using a unfolding b c .
  then have "length (filter P (take j us)) =
             length (filter P ((take i us @ [us ! i]) @ drop (Suc i) (take j us)))"
    by (rule arg_cong)
  also have "\<dots> = length (filter P (take i us)) + 1 + length (filter P (drop (Suc i) (take j us)))"
    using assms(3) by simp
  finally show ?thesis by simp
qed


lemma setInsertionPoint_simps [simp]:
  "fn (setInsertionPoint cst d) = fn d"
  "weight_like (setInsertionPoint cst d) u = weight_like d u"
  "constant_copy cst' (setInsertionPoint cst d) = constant_copy cst' d"
  "uses_ok (setInsertionPoint cst d) us = uses_ok d us"
  "propagated (setInsertionPoint cst d) = propagated d"
  by (auto simp: setInsertionPoint_def weight_like_def constant_copy_def uses_ok_def propagated_def
      GetQuantSpec_def GetQuantScaleSpec_def)

text \<open>
  Claim C6, as amended. For a processed constant (float-typed, element 0 of the content
  finite) of a well-formed function that has more than one use: the preprocessor leaves
  every weight-like use on the constant itself, and gives every propagated use a new
  constant of its own, a copy of the constant that no other use of the constant reads.
  (Values are the keys of the states, so each propagated use gets a state of its own,
  and the weight-like uses share the state of the constant.)
\<close>

theorem propagated_uses_get_own_copy:
  assumes "wf_fn (fn d)" and "processed_constant (fn d) cst" and "cst < length (ops (fn d))"
    and "1 < length (getUses (fn d) (OpResult cst 0))"
    and "j < length (getUses (fn d) (OpResult cst 0))"
  shows "\<exists>d'. preprocess_constant cst d = Inr d' \<and>
     (weight_like d (getUses (fn d) (OpResult cst 0) ! j) \<longrightarrow>
        getOperand (fn d') (fst (getUses (fn d) (OpResult cst 0) ! j))
                           (snd (getUses (fn d) (OpResult cst 0) ! j)) = OpResult cst 0) \<and>
     (\<not> weight_like d (getUses (fn d) (OpResult cst 0) ! j) \<longrightarrow>
        (\<exists>c. getOperand (fn d') (fst (getUses (fn d) (OpResult cst 0) ! j))
                                (snd (getUses (fn d) (OpResult cst 0) ! j)) = OpResult c 0 \<and>
             length (ops (fn d)) \<le> c \<and> c < length (ops (fn d')) \<and>
             ops (fn d') ! c = constant_copy cst d \<and>
             (\<forall>i<length (getUses (fn d) (OpResult cst 0)). i \<noteq> j \<longrightarrow>
                getOperand (fn d') (fst (getUses (fn d) (OpResult cst 0) ! i))
                                   (snd (getUses (fn d) (OpResult cst 0) ! i)) \<noteq> OpResult c 0)))"
proof -
  let ?us = "getUses (fn d) (OpResult cst 0)"
  let ?d0 = "setInsertionPoint cst d"
  let ?d' = "preprocess_uses cst d"
  let ?n = "length (ops (fn d))"
  let ?c = "\<lambda>i. ?n + length (filter (propagated d) (take i ?us))"
  have pre: "preprocess_constant cst d = Inr ?d'"
    using assms(2) by (rule processed_constant_preprocess)
  have fold: "?d' = fold (preprocess_use cst (length ?us)) ?us ?d0"
    by (simp add: preprocess_uses_def Let_def)
  have dist: "distinct ?us" using assms(1) by (rule getUses_distinct)
  have ok: "uses_ok ?d0 ?us"
    using getUses_in_range[OF assms(1)] by (auto simp: uses_ok_def list_all_iff)
  have orig: "operands (ops (fn d) ! fst u) ! snd u = OpResult cst 0" if "u \<in> set ?us" for u
    using getUses_in_range[OF assms(1) that] by simp
  have c0: "cst < length (ops (fn ?d0))" using assms(3) by simp
  note F = fold_preprocess_use[OF assms(4) dist ok c0]
  have len: "length (ops (fn ?d')) = ?n + length (filter (propagated d) ?us)"
    using conjunct1[OF F] unfolding fold by simp
  have rd0: "\<forall>j<length ?us. operands (ops (fn ?d') ! fst (?us ! j)) ! snd (?us ! j) =
            (if weight_like d (?us ! j) then operands (ops (fn d) ! fst (?us ! j)) ! snd (?us ! j)
             else OpResult (?c j) 0)"
    using conjunct1[OF conjunct2[OF F]] unfolding fold by simp
  have rd: "getOperand (fn ?d') (fst (?us ! i)) (snd (?us ! i)) =
              (if weight_like d (?us ! i) then OpResult cst 0 else OpResult (?c i) 0)"
    if "i < length ?us" for i
    using rd0 that orig[of "?us ! i"] by (simp add: getOperand_def)
  have copy0: "\<forall>i. ?n \<le> i \<longrightarrow> i < length (ops (fn ?d')) \<longrightarrow> ops (fn ?d') ! i = constant_copy cst d"
    using conjunct2[OF conjunct2[OF conjunct2[OF F]]] unfolding fold by simp
  have copy: "ops (fn ?d') ! i = constant_copy cst d" if "?n \<le> i" "i < length (ops (fn ?d'))" for i
    using copy0 that by simp
  have cj: "?c j < length (ops (fn ?d'))" if "\<not> weight_like d (?us ! j)"
  proof -
    have "length (filter (propagated d) (take j ?us)) < length (filter (propagated d) (take (Suc j) ?us))"
      using assms(5) that by (simp add: take_Suc_conv_app_nth propagated_def)
    also have "\<dots> \<le> length (filter (propagated d) (take (Suc j) ?us @ drop (Suc j) ?us))"
      unfolding filter_append length_append by (rule le_add1)
    also have "\<dots> = length (filter (propagated d) ?us)" by simp
    finally show ?thesis using len by simp
  qed
  have other: "getOperand (fn ?d') (fst (?us ! i)) (snd (?us ! i)) \<noteq> OpResult (?c j) 0"
    if "i < length ?us" "i \<noteq> j" "\<not> weight_like d (?us ! j)" for i
  proof (cases "weight_like d (?us ! i)")
    case True
    then show ?thesis using rd[OF that(1)] assms(3) by simp
  next
    case False
    have "?c i \<noteq> ?c j"
    proof (cases "i < j")
      case True
      then show ?thesis
        using filter_take_strict[of i j ?us "propagated d"] assms(5) False
        by (simp add: propagated_def)
    next
      case False
      then have "j < i" using that(2) by simp
      then show ?thesis
        using filter_take_strict[of j i ?us "propagated d"] that(1,3)
        by (simp add: propagated_def)
    qed
    then show ?thesis using rd[OF that(1)] False by simp
  qed
  show ?thesis
  proof (intro exI[of _ ?d'] conjI impI)
    show "preprocess_constant cst d = Inr ?d'" by (rule pre)
    show "getOperand (fn ?d') (fst (?us ! j)) (snd (?us ! j)) = OpResult cst 0"
      if "weight_like d (?us ! j)" using rd[OF assms(5)] that by simp
    show "\<exists>c. getOperand (fn ?d') (fst (?us ! j)) (snd (?us ! j)) = OpResult c 0 \<and>
             ?n \<le> c \<and> c < length (ops (fn ?d')) \<and> ops (fn ?d') ! c = constant_copy cst d \<and>
             (\<forall>i<length ?us. i \<noteq> j \<longrightarrow>
                getOperand (fn ?d') (fst (?us ! i)) (snd (?us ! i)) \<noteq> OpResult c 0)"
      if w: "\<not> weight_like d (?us ! j)"
    proof (intro exI[of _ "?c j"] conjI allI impI)
      show "getOperand (fn ?d') (fst (?us ! j)) (snd (?us ! j)) = OpResult (?c j) 0"
        using rd[OF assms(5)] w by simp
      show "?n \<le> ?c j" by simp
      show "?c j < length (ops (fn ?d'))" using cj[OF w] .
      show "ops (fn ?d') ! ?c j = constant_copy cst d" using copy cj[OF w] by simp
      show "getOperand (fn ?d') (fst (?us ! i)) (snd (?us ! i)) \<noteq> OpResult (?c j) 0"
        if "i < length ?us" "i \<noteq> j" for i using other[OF that w] .
    qed
  qed
qed

text \<open>
  Witness for claim C6, the instance of the specification: the constant of
  \<open>conv_fn\<close> has exactly two uses, the weight-like use as the filter and the propagated
  use as the bias. After the preprocessor the bias operand reads a new constant and the
  filter operand the old one, and the set-up of the states gives the two operands
  different states.
\<close>

theorem propagated_uses_get_own_copy_witness:
  "wf_fn (fn (conv_driver [Finite 1, Finite 2])) \<and>
   processed_constant (fn (conv_driver [Finite 1, Finite 2])) 0 \<and>
   getUses (fn (conv_driver [Finite 1, Finite 2])) (OpResult 0 0) = [(1, 2), (1, 1)] \<and>
   weight_like (conv_driver [Finite 1, Finite 2]) (1, 1) \<and>
   \<not> weight_like (conv_driver [Finite 1, Finite 2]) (1, 2) \<and>
   (\<exists>d' c. preprocess_constant 0 (conv_driver [Finite 1, Finite 2]) = Inr d' \<and>
      getOperand (fn d') 1 2 = OpResult c 0 \<and> 2 \<le> c \<and> getOperand (fn d') 1 1 \<noteq> OpResult c 0) \<and>
   (case Initialize (\<lambda>op. True) (conv_driver [Finite 1, Finite 2]) of
      Inl e \<Rightarrow> False
    | Inr d' \<Rightarrow> getOperand (fn d') 1 1 = OpResult 0 0 \<and> getOperand (fn d') 1 2 = OpResult 2 0 \<and>
               operand_states d' (1, 1) = Some 2 \<and> operand_states d' (1, 2) = Some 1)"
proof -
  let ?d = "conv_driver [Finite 1, Finite 2]"
  have h1: "wf_fn (fn ?d)" by (simp add: conv_driver_def new_driver_def conv_fn_def wf_fn_created)
  have h2: "processed_constant (fn ?d) 0" by code_simp
  have h3: "0 < length (ops (fn ?d))" by code_simp
  have us: "getUses (fn ?d) (OpResult 0 0) = [(1, 2), (1, 1)]" by code_simp
  have h4: "1 < length (getUses (fn ?d) (OpResult 0 0))" by (simp add: us)
  have h5: "0 < length (getUses (fn ?d) (OpResult 0 0))" by (simp add: us)
  have w1: "weight_like ?d (1, 1)" by code_simp
  have w2: "\<not> weight_like ?d (1, 2)" by code_simp
  have n: "length (ops (fn ?d)) = 2" by code_simp
  have e: "\<exists>d' c. preprocess_constant 0 ?d = Inr d' \<and>
      getOperand (fn d') 1 2 = OpResult c 0 \<and> 2 \<le> c \<and> getOperand (fn d') 1 1 \<noteq> OpResult c 0"
    using propagated_uses_get_own_copy [OF h1 h2 h3 h4 h5] w2 unfolding us n
    by (auto simp: less_Suc_eq)
  have i: "case Initialize (\<lambda>op. True) ?d of
      Inl e \<Rightarrow> False
    | Inr d' \<Rightarrow> getOperand (fn d') 1 1 = OpResult 0 0 \<and> getOperand (fn d') 1 2 = OpResult 2 0 \<and>
               operand_states d' (1, 1) = Some 2 \<and> operand_states d' (1, 2) = Some 1"
    by code_simp
  show ?thesis using h1 h2 us w1 w2 e i by blast
qed

text \<open>
  Counterexample for claim C6 as stated: the constant of \<open>two_conv_fn\<close> has three uses,
  two of them weight-like (the filters of operations 1 and 2) and one propagated (the
  bias of operation 1). After the preprocessor and the set-up of the states, the two
  filter operands read the same constant and have the same state: not every use has a
  state of its own.
\<close>

theorem weight_uses_share_state:
  "getUses (fn two_conv_driver) (OpResult 0 0) = [(2, 1), (1, 2), (1, 1)] \<and>
   weight_like two_conv_driver (1, 1) \<and>
   \<not> weight_like two_conv_driver (1, 2) \<and>
   weight_like two_conv_driver (2, 1) \<and>
   (case Initialize (\<lambda>op. True) two_conv_driver of
      Inl e \<Rightarrow> False
    | Inr d' \<Rightarrow> getOperand (fn d') 1 1 = OpResult 0 0 \<and> getOperand (fn d') 2 1 = OpResult 0 0 \<and>
               getOperand (fn d') 1 2 = OpResult 3 0 \<and>
               operand_states d' (1, 1) = Some 2 \<and> operand_states d' (2, 1) = Some 2)"
  by code_simp

lemma non_finite_first_skipped:
  assumes "kind (ops (fn d) ! cst) = ConstantOp (DenseFPElementsAttr (x # xs))" "\<not> isFinite x"
  shows "preprocess_constant cst d = Inr d"
  using assms
  by (auto simp: preprocess_constant_def split: Type.splits ElementType.splits)

text \<open>
  Claim C7, evaluated on a content whose element 1 is not a number while element 0 is
  finite: the constant of \<open>conv_fn\<close> is processed like any other. It is recorded as a
  weight (with the per-channel axis of its use as the filter), which is the condition for
  the inference of parameters from its content, and it is duplicated for its use as the
  bias. With the two elements exchanged the constant is skipped.
\<close>

theorem non_finite_tail_is_weight:
  "\<not> list_all isFinite [Finite 1, NaN] \<and>
   (case PreprocessConstantOps (conv_driver [Finite 1, NaN]) of
      Inl e \<Rightarrow> False
    | Inr d' \<Rightarrow> IsWeight d' 0 \<and> optimized_weights d' 0 = Some 0 \<and>
               length (ops (fn d')) = 3 \<and> getOperand (fn d') 1 2 = OpResult 2 0) \<and>
   (case PreprocessConstantOps (conv_driver [NaN, Finite 1]) of
      Inl e \<Rightarrow> False
    | Inr d' \<Rightarrow> \<not> IsWeight d' 0 \<and> fn d' = conv_fn [NaN, Finite 1])"
proof -
  let ?d = "conv_driver [NaN, Finite 1]"
  have a: "\<not> list_all isFinite [Finite 1, NaN]" by simp
  have b: "case PreprocessConstantOps (conv_driver [Finite 1, NaN]) of
      Inl e \<Rightarrow> False
    | Inr d' \<Rightarrow> IsWeight d' 0 \<and> optimized_weights d' 0 = Some 0 \<and>
               length (ops (fn d')) = 3 \<and> getOperand (fn d') 1 2 = OpResult 2 0"
    by code_simp
  have k0: "kind (ops (fn ?d) ! 0) = ConstantOp (DenseFPElementsAttr (NaN # [Finite 1]))"
    by (simp add: conv_driver_def new_driver_def conv_fn_def created_def)
  have s0: "preprocess_constant 0 ?d = Inr ?d"
    using k0 by (rule non_finite_first_skipped) simp
  have k1: "kind (ops (fn ?d) ! 1) = OtherOp"
    by (simp add: conv_driver_def new_driver_def conv_fn_def created_def)
  have s1: "preprocess_constant (Suc 0) ?d = Inr ?d"
    using k1 by (simp add: preprocess_constant_def)
  have bd: "body (fn ?d) = [0, 1]"
    by (simp add: conv_driver_def new_driver_def conv_fn_def created_def upt_rec)
  have p: "PreprocessConstantOps ?d = Inr ?d"
    by (simp add: PreprocessConstantOps_def bd s0 s1)
  have c: "\<not> IsWeight ?d 0 \<and> fn ?d = conv_fn [NaN, Finite 1]"
    by (simp add: IsWeight_def conv_driver_def new_driver_def)
  show ?thesis using a b c unfolding p by simp
qed

subsection \<open>Requantization\<close>

lemma RequantizeOpResult_declines:
  "\<exists>state \<in> set sts. pos state \<noteq> pos (hd sts) \<Longrightarrow> fn (RequantizeOpResult op index sts d) = fn d"
  by (cases sts) (auto simp: RequantizeOpResult_def Let_def setInsertionPointAfter_def)

subsection \<open>The bias adjustment\<close>

text \<open>
  The per-tensor branch of \<^verbatim>\<open>SetBiasParamsWithAdjustments\<close>, when the check applies and
  the input and the filter have per-tensor parameters: if the quotient of the largest
  absolute value of the bias by the proposed scale is less than \<open>kBiasMax\<close>, the proposal
  is assigned as it is.
\<close>

lemma per_tensor_below_limit:
  assumes "ShouldCheckBiasScale aff op bias_index input_indices ps d = Inr (Some (ii, fi))"
    and "getDefiningConstantOp (fn d) (getOperand (fn d) op bias_index) = Some bias_op"
    and "kind (ops (fn d) ! bias_op) = ConstantOp (DenseFPElementsAttr bias_values)"
    and "getDefiningConstantOp (fn d) (getOperand (fn d) op fi) = Some filter_cst"
    and "params (GetOperandQuantState d op ii) = Some (UniformQuantizedType ifl iw input_scale izp imn imx)"
    and "ps = Some (UniformQuantizedType fl w sc zp smin smax)"
    and "dless (ddiv (bias_half_range bias_values) sc) (Fin (of_int kBiasMax))"
  shows "SetBiasParamsWithAdjustments aff op bias_index input_indices ps d =
           Inr (SetOperandParams op bias_index ps False d)"
  using assms by (simp add: SetBiasParamsWithAdjustments_def)

text \<open>
  Otherwise the bias is given the scale \<open>B / kBiasMax\<close> and the zero point 0, the filter
  constant is duplicated if it has more than one use, and then the filter operand is
  given, with \<open>override\<close>, the scale \<open>new_bias_scale / input_scale\<close> and the zero point 0.
\<close>

lemma per_tensor_at_or_above_limit:
  assumes "ShouldCheckBiasScale aff op bias_index input_indices ps d = Inr (Some (ii, fi))"
    and "getDefiningConstantOp (fn d) (getOperand (fn d) op bias_index) = Some bias_op"
    and "kind (ops (fn d) ! bias_op) = ConstantOp (DenseFPElementsAttr bias_values)"
    and "getDefiningConstantOp (fn d) (getOperand (fn d) op fi) = Some filter_cst"
    and "params (GetOperandQuantState d op ii) = Some (UniformQuantizedType ifl iw input_scale izp imn imx)"
    and "params (GetOperandQuantState d op fi) = Some (UniformQuantizedType ffl fw fsc fzp fmn fmx)"
    and "ps = Some (UniformQuantizedType fl w sc zp smin smax)"
    and "\<not> dless (ddiv (bias_half_range bias_values) sc) (Fin (of_int kBiasMax))"
    and "new_bias_scale = ddiv (bias_half_range bias_values) (of_int kBiasMax)"
    and "SetOperandParams op bias_index (getChecked fl w new_bias_scale 0 smin smax) False d = (c1, d1)"
    and "DuplicateConstantOpIfNeeded filter_cst op fi d1 = (filter_op, d2)"
    and "SetOperandParams op fi (getChecked ffl fw (ddiv new_bias_scale input_scale) 0 fmn fmx) True d2 = (c2, d3)"
  shows "SetBiasParamsWithAdjustments aff op bias_index input_indices ps d = Inr (c1 \<or> c2, d3)"
  using assms by (simp add: SetBiasParamsWithAdjustments_def Let_def)


end
